theory Spec2Isabelle
  imports Complex_Main "HOL-Library.AList" "HOL-Library.Sublist"
begin

section \<open>Values, errors and the outside world\<close>

text \<open>
  The program is \<^verbatim>\<open>automated_flight_tracking_system.py\<close>. It talks to two remote
  services (a text generator and an issue tracker), decodes JSON and keeps one piece of
  global state, the index of the active generator key. The embedding passes the state
  explicitly, returns every Python exception as a value, and records every remote call and
  every pause in a trace.
\<close>

text \<open>
  What \<^verbatim>\<open>json.loads\<close> returns. Objects are association lists in document order.
  The non-finite numbers that Python's decoder also accepts are not represented.
\<close>

datatype json =
    JNull
  | JBool bool
  | JInt int
  | JFloat real
  | JStr string
  | JArr "json list"
  | JObj "(string \<times> json) list"

text \<open>The exceptions that can leave a function of the program.\<close>

datatype py_error =
    ConnectionError
  | IndexError
  | KeyError string
  | TypeError
  | AttributeError
  | JSONDecodeError

text \<open>
  One call of \<^verbatim>\<open>generate_content\<close> followed by reading \<^verbatim>\<open>.text\<close>: either the text, or
  an exception, of which the program only looks at \<^verbatim>\<open>str(error)\<close>.
\<close>

datatype gen_outcome = GenText string | GenError string

text \<open>
  An answer of the tracker: the status code, the raw text, and what \<^verbatim>\<open>response.json()\<close>
  returns, with \<open>None\<close> when the body does not decode and the call raises. Nothing is
  assumed about the shape of the decoded body.
\<close>

record response =
  status_code :: int
  body_text :: string
  json_body :: "json option"

text \<open>
  The five requests of the program, with the arguments that go into the request. Issue keys
  and the name of the link type are whatever was read from earlier answers.
\<close>

datatype request =
    PostIssue json string
  | PostChildIssue json string string
  | GetSearch
  | GetIssueLinkTypes
  | PostIssueLink json json json

datatype event =
    Generate nat "string option" string gen_outcome
  | Call request response
  | Sleep nat

text \<open>
  The outside world is a parameter. Both services answer as a function of everything that
  happened before (the trace) and of the request, which covers every deterministic behaviour
  of a remote service that answers; a request that gets no answer at all, where the HTTP
  library itself raises, is not represented. \<open>json_loads\<close> is \<^verbatim>\<open>json.loads\<close>, with \<open>None\<close> for
  \<^verbatim>\<open>JSONDecodeError\<close>; \<open>py_str\<close> is Python's \<^verbatim>\<open>str()\<close> on a decoded value that is
  not a string. The pool \<open>gemini_api_keys\<close> holds what \<^verbatim>\<open>os.getenv\<close> returned, so a
  key may be absent.
\<close>

record env =
  gemini_api_keys :: "string option list"
  generate_content :: "event list \<Rightarrow> string option \<Rightarrow> string \<Rightarrow> gen_outcome"
  tracker :: "event list \<Rightarrow> request \<Rightarrow> response"
  json_loads :: "string \<Rightarrow> json option"
  py_str :: "json \<Rightarrow> string"

record state =
  active_gemini_key_index :: nat
  trace :: "event list"

definition log_event :: "event \<Rightarrow> state \<Rightarrow> state" where
  "log_event e s = s\<lparr>trace := trace s @ [e]\<rparr>"

definition sleep :: "nat \<Rightarrow> state \<Rightarrow> state" where
  "sleep n s = log_event (Sleep n) s"

text \<open>Python's \<^verbatim>\<open>sub in text\<close> on strings.\<close>

fun str_contains :: "string \<Rightarrow> string \<Rightarrow> bool" where
  "str_contains sub [] = (sub = [])"
| "str_contains sub (c # cs) = (prefix sub (c # cs) \<or> str_contains sub cs)"

section \<open>The key-rotating generator\<close>

text \<open>
  \<^verbatim>\<open>initialize_gemini_model\<close> reads the key under the cursor; an index outside the pool
  is Python's \<^verbatim>\<open>IndexError\<close>.
\<close>

definition initialize_gemini_model :: "env \<Rightarrow> state \<Rightarrow> py_error + string option" where
  "initialize_gemini_model env s =
     (if active_gemini_key_index s < length (gemini_api_keys env)
      then Inr (gemini_api_keys env ! active_gemini_key_index s)
      else Inl IndexError)"

text \<open>
  The \<^verbatim>\<open>except\<close> block of the loop, after its \<^verbatim>\<open>print\<close>: a pause of 1 when the
  error text mentions \<^verbatim>\<open>429\<close> or \<^verbatim>\<open>quota\<close>, the cursor moved to the next key, and a
  pause of 2 when the cursor is back where the call started.
\<close>

definition except_block :: "env \<Rightarrow> nat \<Rightarrow> string \<Rightarrow> state \<Rightarrow> state" where
  "except_block env start_index error_string s =
     (let s1 = (if str_contains ''429'' error_string \<or> str_contains ''quota'' error_string
                then sleep 1 s else s);
          s2 = s1\<lparr>active_gemini_key_index :=
                   (active_gemini_key_index s1 + 1) mod length (gemini_api_keys env)\<rparr>
      in if active_gemini_key_index s2 = start_index then sleep 2 s2 else s2)"

text \<open>
  The \<^verbatim>\<open>while\<close> loop of \<^verbatim>\<open>generate_with_gemini_resilience\<close>. When the cursor is
  outside the pool, the \<^verbatim>\<open>except\<close> block itself raises on its first line, which reads the
  key again.
\<close>

function generate_loop ::
  "env \<Rightarrow> string \<Rightarrow> nat \<Rightarrow> nat \<Rightarrow> state \<Rightarrow> (py_error + string) \<times> state" where
  "generate_loop env prompt_text start_index num_attempts s =
     (if num_attempts < length (gemini_api_keys env) then
        (case initialize_gemini_model env s of
           Inl e \<Rightarrow> (Inl IndexError, s)
         | Inr k \<Rightarrow>
             (case generate_content env (trace s) k prompt_text of
                GenText t \<Rightarrow>
                  (Inr t,
                   log_event (Generate (active_gemini_key_index s) k prompt_text (GenText t)) s)
              | GenError error_string \<Rightarrow>
                  generate_loop env prompt_text start_index (num_attempts + 1)
                    (except_block env start_index error_string
                       (log_event
                          (Generate (active_gemini_key_index s) k prompt_text
                             (GenError error_string)) s))))
      else (Inl ConnectionError, s))"
  by pat_completeness auto
termination
  by (relation "measure (\<lambda>(env, p, st, n, s). length (gemini_api_keys env) - n)") auto

declare generate_loop.simps [simp del]

definition generate_with_gemini_resilience ::
  "env \<Rightarrow> string \<Rightarrow> state \<Rightarrow> (py_error + string) \<times> state" where
  "generate_with_gemini_resilience env prompt_text s =
     generate_loop env prompt_text (active_gemini_key_index s) 0 s"

text \<open>Reading a trace: the cursor positions tried, and the outcomes, in order.\<close>

fun attempted :: "event list \<Rightarrow> nat list" where
  "attempted [] = []"
| "attempted (Generate i k p r # es) = i # attempted es"
| "attempted (Call q r # es) = attempted es"
| "attempted (Sleep n # es) = attempted es"

fun outcomes :: "event list \<Rightarrow> gen_outcome list" where
  "outcomes [] = []"
| "outcomes (Generate i k p r # es) = r # outcomes es"
| "outcomes (Call q r # es) = outcomes es"
| "outcomes (Sleep n # es) = outcomes es"

fun is_failure :: "gen_outcome \<Rightarrow> bool" where
  "is_failure (GenError m) = True"
| "is_failure (GenText t) = False"

definition loop_post ::
  "env \<Rightarrow> string \<Rightarrow> nat \<Rightarrow> nat \<Rightarrow> state \<Rightarrow> (py_error + string) \<times> state \<Rightarrow> event list \<Rightarrow> bool" where
  "loop_post env p start n s res evs =
     (let N = length (gemini_api_keys env); s' = snd res in
      trace s' = trace s @ evs \<and>
      (case fst res of
         Inl e \<Rightarrow> e = ConnectionError
           \<and> attempted evs = map (\<lambda>i. (start + i) mod N) [n..<N]
           \<and> list_all is_failure (outcomes evs)
           \<and> active_gemini_key_index s' = start
       | Inr t \<Rightarrow> \<exists>j fs. n \<le> j \<and> j < N
           \<and> attempted evs = map (\<lambda>i. (start + i) mod N) [n..<Suc j]
           \<and> outcomes evs = fs @ [GenText t] \<and> list_all is_failure fs
           \<and> active_gemini_key_index s' = (start + j) mod N
           \<and> evs \<noteq> []
           \<and> last evs = Generate ((start + j) mod N)
                 (gemini_api_keys env ! ((start + j) mod N)) p (GenText t)
           \<and> generate_content env (trace s @ butlast evs)
                 (gemini_api_keys env ! ((start + j) mod N)) p = GenText t))"


definition no_response :: response where
  "no_response = \<lparr>status_code = 500, body_text = ''Internal Server Error'', json_body = None\<rparr>"

definition env_all_fail :: env where
  "env_all_fail = \<lparr>gemini_api_keys = [Some ''k0'', Some ''k1'', Some ''k2''],
     generate_content = (\<lambda>h k p. GenError ''429 quota''),
     tracker = (\<lambda>h q. no_response),
     json_loads = (\<lambda>t. None),
     py_str = (\<lambda>v. [])\<rparr>"

definition env_second_key :: env where
  "env_second_key = \<lparr>gemini_api_keys = [Some ''k0'', Some ''k1''],
     generate_content = (\<lambda>h k p. if k = Some ''k1'' then GenText ''[]'' else GenError ''boom''),
     tracker = (\<lambda>h q. no_response),
     json_loads = (\<lambda>t. None),
     py_str = (\<lambda>v. [])\<rparr>"


section \<open>Python values\<close>

text \<open>Truth value of a decoded value, as \<^verbatim>\<open>if value:\<close> tests it.\<close>

fun truthy :: "json \<Rightarrow> bool" where
  "truthy JNull = False"
| "truthy (JBool b) = b"
| "truthy (JInt i) = (i \<noteq> 0)"
| "truthy (JFloat r) = (r \<noteq> 0)"
| "truthy (JStr s) = (s \<noteq> [])"
| "truthy (JArr xs) = (xs \<noteq> [])"
| "truthy (JObj kvs) = (kvs \<noteq> [])"

text \<open>
  \<^verbatim>\<open>value[key]\<close> with a string key: a dictionary answers or raises \<^verbatim>\<open>KeyError\<close>,
  every other decoded value raises \<^verbatim>\<open>TypeError\<close>.
\<close>

fun py_getitem :: "json \<Rightarrow> string \<Rightarrow> py_error + json" where
  "py_getitem (JObj kvs) k =
     (case map_of kvs k of None \<Rightarrow> Inl (KeyError k) | Some v \<Rightarrow> Inr v)"
| "py_getitem v k = Inl TypeError"

text \<open>
  \<^verbatim>\<open>value.get(key, default)\<close>: only a dictionary has the method.
\<close>

fun py_get :: "json \<Rightarrow> string \<Rightarrow> json \<Rightarrow> py_error + json" where
  "py_get (JObj kvs) k dflt =
     Inr (case map_of kvs k of None \<Rightarrow> dflt | Some v \<Rightarrow> v)"
| "py_get v k dflt = Inl AttributeError"

text \<open>
  A dictionary whose keys are decoded values, as \<^verbatim>\<open>issue_data_mapping\<close> is. Lists and
  dictionaries cannot be keys. Two keys are the same when Python finds them equal, and
  then they have the same \<open>dict_key\<close>: \<^verbatim>\<open>True\<close>, \<^verbatim>\<open>1\<close> and \<^verbatim>\<open>1.0\<close> are one key. The
  dictionary is an association list under these representatives: storing under a key that
  is present replaces the value in place, a new key goes to the end.
\<close>

fun hashable :: "json \<Rightarrow> bool" where
  "hashable (JArr xs) = False"
| "hashable (JObj kvs) = False"
| "hashable v = True"

fun dict_key :: "json \<Rightarrow> json" where
  "dict_key (JBool b) = JInt (if b then 1 else 0)"
| "dict_key (JFloat r) = (if r = of_int \<lfloor>r\<rfloor> then JInt \<lfloor>r\<rfloor> else JFloat r)"
| "dict_key v = v"

definition dict_set :: "json \<Rightarrow> json \<Rightarrow> (json \<times> json) list \<Rightarrow> py_error + (json \<times> json) list" where
  "dict_set k v d = (if hashable k then Inr (AList.update (dict_key k) v d) else Inl TypeError)"

definition dict_get :: "(json \<times> json) list \<Rightarrow> json \<Rightarrow> py_error + json option" where
  "dict_get d k = (if hashable k then Inr (map_of d (dict_key k)) else Inl TypeError)"

text \<open>
  What a \<^verbatim>\<open>for\<close> loop (or \<^verbatim>\<open>enumerate\<close>, or \<^verbatim>\<open>join\<close>) iterates over: the elements of a
  list, the keys of a dictionary, the characters of a string; other values are not iterable.
\<close>

fun py_iter :: "json \<Rightarrow> py_error + json list" where
  "py_iter (JArr xs) = Inr xs"
| "py_iter (JObj kvs) = Inr (map (\<lambda>kv. JStr (fst kv)) kvs)"
| "py_iter (JStr s) = Inr (map (\<lambda>c. JStr [c]) s)"
| "py_iter v = Inl TypeError"

text \<open>\<^verbatim>\<open>len(value)\<close>.\<close>

fun py_len :: "json \<Rightarrow> py_error + nat" where
  "py_len (JArr xs) = Inr (length xs)"
| "py_len (JObj kvs) = Inr (length kvs)"
| "py_len (JStr s) = Inr (length s)"
| "py_len v = Inl TypeError"

text \<open>A value inside an f-string: a string stands for itself, anything else for its \<^verbatim>\<open>str()\<close>.\<close>

fun format_value :: "env \<Rightarrow> json \<Rightarrow> string" where
  "format_value env (JStr s) = s"
| "format_value env v = py_str env v"

text \<open>\<^verbatim>\<open>sep.join(items)\<close>: every item has to be a string.\<close>

fun the_strings :: "json list \<Rightarrow> py_error + string list" where
  "the_strings [] = Inr []"
| "the_strings (JStr s # vs) =
     (case the_strings vs of Inl e \<Rightarrow> Inl e | Inr ss \<Rightarrow> Inr (s # ss))"
| "the_strings (v # vs) = Inl TypeError"

fun join_with :: "string \<Rightarrow> string list \<Rightarrow> string" where
  "join_with sep [] = []"
| "join_with sep [x] = x"
| "join_with sep (x # y # ys) = x @ sep @ join_with sep (y # ys)"

definition py_join :: "string \<Rightarrow> json \<Rightarrow> py_error + string" where
  "py_join sep v =
     (case py_iter v of
        Inl e \<Rightarrow> Inl e
      | Inr items \<Rightarrow>
          (case the_strings items of Inl e \<Rightarrow> Inl e | Inr ss \<Rightarrow> Inr (join_with sep ss)))"

text \<open>Decimal digits of a natural number, for the step numbers.\<close>

fun str_of_nat :: "nat \<Rightarrow> string" where
  "str_of_nat n =
     (if n < 10 then [''0123456789'' ! n]
      else str_of_nat (n div 10) @ [''0123456789'' ! (n mod 10)])"

declare str_of_nat.simps [simp del]

text \<open>
  \<^verbatim>\<open>text.strip()\<close>. A character stands for the code point of its number, and the
  code points below 256 that Python strips are: tab, line feed, vertical tab, form feed,
  carriage return, the four separators 28 to 31, the blank, next line (133) and the
  no-break space (160).
\<close>

definition is_space :: "char \<Rightarrow> bool" where
  "is_space c = (c \<in> set [CHR 0x09, CHR 0x0A, CHR 0x0B, CHR 0x0C, CHR 0x0D,
                           CHR 0x1C, CHR 0x1D, CHR 0x1E, CHR 0x1F, CHR 0x20,
                           CHR 0x85, CHR 0xA0])"

definition py_strip :: "string \<Rightarrow> string" where
  "py_strip t = rev (dropWhile is_space (rev (dropWhile is_space t)))"

text \<open>\<^verbatim>\<open>text.find(c)\<close> and \<^verbatim>\<open>text.rfind(c)\<close> for one character: an index, or \<open>-1\<close>.\<close>

fun py_find :: "char \<Rightarrow> string \<Rightarrow> int" where
  "py_find c [] = - 1"
| "py_find c (x # xs) =
     (if x = c then 0 else (let r = py_find c xs in if r = - 1 then - 1 else r + 1))"

definition py_rfind :: "char \<Rightarrow> string \<Rightarrow> int" where
  "py_rfind c t =
     (let r = py_find c (rev t) in if r = - 1 then - 1 else int (length t) - 1 - r)"

text \<open>\<^verbatim>\<open>text[i:j]\<close> for \<open>0 \<le> i\<close> and \<open>0 \<le> j\<close>.\<close>

definition py_slice :: "string \<Rightarrow> int \<Rightarrow> int \<Rightarrow> string" where
  "py_slice t i j = take (nat (j - i)) (drop (nat i) t)"

section \<open>The response parser\<close>

text \<open>
  \<^verbatim>\<open>parse_json_from_text\<close>. Python's \<^verbatim>\<open>None\<close> is \<open>JNull\<close>, whether it comes from the
  \<^verbatim>\<open>except\<close> branch or from decoding the text \<^verbatim>\<open>null\<close>.
\<close>

definition decode_or_none :: "env \<Rightarrow> string \<Rightarrow> json" where
  "decode_or_none env t = (case json_loads env t of None \<Rightarrow> JNull | Some v \<Rightarrow> v)"

definition parse_json_from_text :: "env \<Rightarrow> string \<Rightarrow> json" where
  "parse_json_from_text env raw_text =
     (let json_start_index = py_find CHR ''['' raw_text;
          json_end_index = py_rfind CHR '']'' raw_text + 1
      in if json_start_index \<noteq> - 1 \<and> json_end_index > json_start_index
         then decode_or_none env (py_slice raw_text json_start_index json_end_index)
         else decode_or_none env raw_text)"

section \<open>The tracker client\<close>

text \<open>One request: the tracker answers from the trace so far, and the call is recorded.\<close>

definition http :: "env \<Rightarrow> request \<Rightarrow> state \<Rightarrow> response \<times> state" where
  "http env q s = (let r = tracker env (trace s) q in (r, log_event (Call q r) s))"

text \<open>
  What \<^verbatim>\<open>create_jira_issue\<close> and \<^verbatim>\<open>create_jira_child_issue\<close> make of the answer: on
  status 201 they decode the body and read its member \<^verbatim>\<open>key\<close>, both without a guard;
  on any other status they return \<^verbatim>\<open>None\<close>.
\<close>

definition created_issue_key :: "response \<Rightarrow> py_error + json" where
  "created_issue_key response =
     (if status_code response = 201 then
        (case json_body response of
           None \<Rightarrow> Inl JSONDecodeError
         | Some created_issue \<Rightarrow> py_getitem created_issue ''key'')
      else Inr JNull)"

definition create_jira_issue ::
  "env \<Rightarrow> json \<Rightarrow> string \<Rightarrow> state \<Rightarrow> (py_error + json) \<times> state" where
  "create_jira_issue env title issue_description s =
     (let (response, s') = http env (PostIssue title issue_description) s
      in (created_issue_key response, s'))"

definition create_jira_child_issue ::
  "env \<Rightarrow> json \<Rightarrow> string \<Rightarrow> string \<Rightarrow> state \<Rightarrow> (py_error + json) \<times> state" where
  "create_jira_child_issue env parent_issue_key title issue_description s =
     (let (response, s') = http env (PostChildIssue parent_issue_key title issue_description) s
      in (created_issue_key response, s'))"

text \<open>
  What the loop of \<^verbatim>\<open>get_project_issues\<close> reads from one issue before it prints the
  line: \<^verbatim>\<open>fields\<close> and \<^verbatim>\<open>assignee\<close> with \<^verbatim>\<open>get\<close>, the display name of a truthy
  assignee, then \<^verbatim>\<open>key\<close>, \<^verbatim>\<open>summary\<close> and the name of \<^verbatim>\<open>status\<close>.
\<close>

definition read_issue :: "json \<Rightarrow> py_error + unit" where
  "read_issue issue =
     (case py_get issue ''fields'' (JObj []) of Inl e \<Rightarrow> Inl e | Inr issue_fields \<Rightarrow>
      case py_get issue_fields ''assignee'' JNull of Inl e \<Rightarrow> Inl e | Inr assignee_info \<Rightarrow>
      case (if truthy assignee_info then py_getitem assignee_info ''displayName''
            else Inr (JStr ''Unassigned'')) of Inl e \<Rightarrow> Inl e | Inr assignee_name \<Rightarrow>
      case py_getitem issue ''key'' of Inl e \<Rightarrow> Inl e | Inr k \<Rightarrow>
      case py_getitem issue_fields ''summary'' of Inl e \<Rightarrow> Inl e | Inr summary \<Rightarrow>
      case py_getitem issue_fields ''status'' of Inl e \<Rightarrow> Inl e | Inr status \<Rightarrow>
      case py_getitem status ''name'' of Inl e \<Rightarrow> Inl e | Inr status_name \<Rightarrow> Inr ())"

fun read_issues :: "json list \<Rightarrow> py_error + unit" where
  "read_issues [] = Inr ()"
| "read_issues (issue # rest) =
     (case read_issue issue of Inl e \<Rightarrow> Inl e | Inr u \<Rightarrow> read_issues rest)"

definition get_project_issues :: "env \<Rightarrow> state \<Rightarrow> (py_error + json) \<times> state" where
  "get_project_issues env s =
     (let (response, s') = http env GetSearch s
      in (if status_code response = 200 then
            (case json_body response of
               None \<Rightarrow> Inl JSONDecodeError
             | Some body \<Rightarrow>
                 (case py_get body ''issues'' (JArr []) of
                    Inl e \<Rightarrow> Inl e
                  | Inr issues_data \<Rightarrow>
                      (case py_len issues_data of
                         Inl e \<Rightarrow> Inl e
                       | Inr n \<Rightarrow>
                           (case py_iter issues_data of
                              Inl e \<Rightarrow> Inl e
                            | Inr issues \<Rightarrow>
                                (case read_issues issues of
                                   Inl e \<Rightarrow> Inl e
                                 | Inr u \<Rightarrow> Inr issues_data)))))
          else Inr (JArr []), s'))"

text \<open>
  What the loop of \<^verbatim>\<open>get_jira_issue_link_types\<close> reads from one link type before it
  prints the line: \<^verbatim>\<open>name\<close>, \<^verbatim>\<open>inward\<close> and \<^verbatim>\<open>outward\<close>.
\<close>

definition read_link_type :: "json \<Rightarrow> py_error + unit" where
  "read_link_type link_type =
     (case py_getitem link_type ''name'' of Inl e \<Rightarrow> Inl e | Inr name_read \<Rightarrow>
      case py_getitem link_type ''inward'' of Inl e \<Rightarrow> Inl e | Inr inward_read \<Rightarrow>
      case py_getitem link_type ''outward'' of Inl e \<Rightarrow> Inl e | Inr outward_read \<Rightarrow> Inr ())"

fun read_link_types :: "json list \<Rightarrow> py_error + unit" where
  "read_link_types [] = Inr ()"
| "read_link_types (link_type # rest) =
     (case read_link_type link_type of Inl e \<Rightarrow> Inl e | Inr u \<Rightarrow> read_link_types rest)"

definition get_jira_issue_link_types :: "env \<Rightarrow> state \<Rightarrow> (py_error + json) \<times> state" where
  "get_jira_issue_link_types env s =
     (let (response, s') = http env GetIssueLinkTypes s
      in (if status_code response = 200 then
            (case json_body response of
               None \<Rightarrow> Inl JSONDecodeError
             | Some body \<Rightarrow>
                 (case py_get body ''issueLinkTypes'' (JArr []) of
                    Inl e \<Rightarrow> Inl e
                  | Inr link_types_data \<Rightarrow>
                      (case py_iter link_types_data of
                         Inl e \<Rightarrow> Inl e
                       | Inr link_types \<Rightarrow>
                           (case read_link_types link_types of
                              Inl e \<Rightarrow> Inl e
                            | Inr u \<Rightarrow> Inr link_types_data))))
          else Inr (JArr []), s'))"

text \<open>\<^verbatim>\<open>link_jira_issues\<close> looks at the status only.\<close>

definition link_jira_issues ::
  "env \<Rightarrow> json \<Rightarrow> json \<Rightarrow> json \<Rightarrow> state \<Rightarrow> bool \<times> state" where
  "link_jira_issues env source_issue target_issue relationship_type s =
     (let (response, s') = http env (PostIssueLink source_issue target_issue relationship_type) s
      in (status_code response = 201, s'))"


section \<open>The task planner\<close>


definition test_cases_prompt :: "env \<Rightarrow> json \<Rightarrow> json \<Rightarrow> string" where
  \<open>test_cases_prompt env task_summary parent_key =
     ''\<newline>''
     @ ''    For the development task detailed below, create 3 to 5 comprehensive test cases.\<newline>''
     @ ''    Task: "''
     @ format_value env task_summary
     @ ''" (Parent Ticket: ''
     @ format_value env parent_key
     @ '')\<newline>''
     @ ''\<newline>''
     @ ''    Guidelines:\<newline>''
     @ ''    - Generate between 3 and 5 unique test cases.\<newline>''
     @ ''    - Each should cover a critical function or edge case.\<newline>''
     @ ''    - Include specific steps, expected results, and a priority level.\<newline>''
     @ ''    - Ensure test cases are actionable and not trivial.\<newline>''
     @ ''\<newline>''
     @ ''    Provide the output in this exact JSON format:\<newline>''
     @ ''    [\<newline>''
     @ ''      {\<newline>''
     @ ''        "test_id": "TC-1",\<newline>''
     @ ''        "test_name": "A short, descriptive test case name",\<newline>''
     @ ''        "description": "A detailed description of the test case",\<newline>''
     @ ''        "steps": ["Step 1", "Step 2", "Step 3"],\<newline>''
     @ ''        "expected_result": "The expected outcome after executing the steps",\<newline>''
     @ ''        "priority": "High | Medium | Low"\<newline>''
     @ ''      }\<newline>''
     @ ''    ]\<newline>''
     @ ''    Ensure the final output is a valid JSON array of 3 to 5 items.\<newline>''
     @ ''    ''\<close>


definition generate_test_cases_for_task ::
  "env \<Rightarrow> json \<Rightarrow> json \<Rightarrow> state \<Rightarrow> (py_error + json) \<times> state" where
  "generate_test_cases_for_task env task_summary parent_key s =
     (case generate_with_gemini_resilience env
             (test_cases_prompt env task_summary parent_key) s of
        (Inl e, s') \<Rightarrow> (Inl e, s')
      | (Inr raw_response, s') \<Rightarrow> (Inr (parse_json_from_text env raw_response), s'))"


section \<open>The workflow\<close>

text \<open>
  The link type chosen at the start of \<^verbatim>\<open>create_and_link_tasks\<close>. The names of the
  tracker's link types are read with \<^verbatim>\<open>lt["name"]\<close>; the choice is the first preferred
  name among them; failing that, and when the tracker's list is truthy, the name of its
  first element; failing that, \<^verbatim>\<open>None\<close>. Only a non-empty list reaches the subscript
  \<^verbatim>\<open>[0]\<close>: for any other truthy value reading the names has raised already.
\<close>

definition preferred_link_types :: "string list" where
  "preferred_link_types = [''Relates'', ''Relates to'', ''Dependency'', ''Blocks'']"

fun link_type_names :: "json list \<Rightarrow> py_error + json list" where
  "link_type_names [] = Inr []"
| "link_type_names (lt # rest) =
     (case py_getitem lt ''name'' of
        Inl e \<Rightarrow> Inl e
      | Inr n \<Rightarrow> (case link_type_names rest of Inl e \<Rightarrow> Inl e | Inr ns \<Rightarrow> Inr (n # ns)))"

definition link_type_to_use :: "json \<Rightarrow> py_error + json" where
  "link_type_to_use available_link_types =
     (case py_iter available_link_types of
        Inl e \<Rightarrow> Inl e
      | Inr link_types \<Rightarrow>
          (case link_type_names link_types of
             Inl e \<Rightarrow> Inl e
           | Inr names \<Rightarrow>
               (case List.find (\<lambda>t. JStr t \<in> set names) preferred_link_types of
                  Some t \<Rightarrow> Inr (JStr t)
                | None \<Rightarrow>
                    if truthy available_link_types then
                      (case link_types of
                         [] \<Rightarrow> Inl IndexError
                       | lt # rest \<Rightarrow> py_getitem lt ''name'')
                    else Inr JNull)))"

text \<open>
  What one round of the loop reads from a task before it creates the issue: the fields
  \<^verbatim>\<open>summary\<close>, \<^verbatim>\<open>category\<close>, \<^verbatim>\<open>component\<close> for the description, then \<^verbatim>\<open>title\<close>.
\<close>

definition read_task :: "env \<Rightarrow> json \<Rightarrow> json \<Rightarrow> py_error + json \<times> string" where
  "read_task env parent_ticket_key task =
     (case py_getitem task ''summary'' of Inl e \<Rightarrow> Inl e | Inr summary \<Rightarrow>
      case py_getitem task ''category'' of Inl e \<Rightarrow> Inl e | Inr category \<Rightarrow>
      case py_getitem task ''component'' of Inl e \<Rightarrow> Inl e | Inr component \<Rightarrow>
      case py_getitem task ''title'' of Inl e \<Rightarrow> Inl e | Inr title \<Rightarrow>
        Inr (title,
             format_value env summary @ ''\<newline>\<newline>''
             @ ''Category: '' @ format_value env category @ ''\<newline>''
             @ ''Component: '' @ format_value env component @ ''\<newline>''
             @ ''Parent Requirement: '' @ format_value env parent_ticket_key))"

text \<open>
  The last two lines of the loop body: when the link type is truthy, a pause of 1 and the
  request that links the parent to the new issue; the answer is not looked at.
\<close>

definition link_to_parent :: "env \<Rightarrow> json \<Rightarrow> json \<Rightarrow> json \<Rightarrow> state \<Rightarrow> state" where
  "link_to_parent env parent_ticket_key link_type new_issue_key s =
     (if truthy link_type
      then snd (link_jira_issues env parent_ticket_key new_issue_key link_type (sleep 1 s))
      else s)"

text \<open>
  The \<^verbatim>\<open>for\<close> loop of \<^verbatim>\<open>create_and_link_tasks\<close>, carrying \<^verbatim>\<open>created_issue_keys\<close>
  and \<^verbatim>\<open>issue_data_mapping\<close>. A key that is falsy (\<^verbatim>\<open>None\<close> after a refused
  creation, or an empty key) makes the loop go on with the next task; an exception of the
  creation, or of storing under a key that cannot be a dictionary key, leaves the loop.
\<close>

fun create_and_link_loop ::
  "env \<Rightarrow> json \<Rightarrow> json \<Rightarrow> json list \<Rightarrow> json list \<Rightarrow> (json \<times> json) list
     \<Rightarrow> state \<Rightarrow> (py_error + json list \<times> (json \<times> json) list) \<times> state" where
  "create_and_link_loop env parent_ticket_key link_type [] created_issue_keys
       issue_data_mapping s = (Inr (created_issue_keys, issue_data_mapping), s)"
| "create_and_link_loop env parent_ticket_key link_type (task # rest) created_issue_keys
       issue_data_mapping s =
     (case read_task env parent_ticket_key task of
        Inl e \<Rightarrow> (Inl e, s)
      | Inr (title, full_description) \<Rightarrow>
          (case create_jira_issue env title full_description s of
             (Inl e, s1) \<Rightarrow> (Inl e, s1)
           | (Inr new_issue_key, s1) \<Rightarrow>
               if truthy new_issue_key then
                 (case dict_set new_issue_key task issue_data_mapping of
                    Inl e \<Rightarrow> (Inl e, s1)
                  | Inr mapping \<Rightarrow>
                      create_and_link_loop env parent_ticket_key link_type rest
                        (created_issue_keys @ [new_issue_key]) mapping
                        (link_to_parent env parent_ticket_key link_type new_issue_key s1))
               else
                 create_and_link_loop env parent_ticket_key link_type rest created_issue_keys
                   issue_data_mapping s1))"

definition create_and_link_tasks ::
  "env \<Rightarrow> json \<Rightarrow> json \<Rightarrow> state
     \<Rightarrow> (py_error + json list \<times> (json \<times> json) list) \<times> state" where
  "create_and_link_tasks env parent_ticket_key task_definitions s =
     (case get_jira_issue_link_types env s of
        (Inl e, s1) \<Rightarrow> (Inl e, s1)
      | (Inr available_link_types, s1) \<Rightarrow>
          (case link_type_to_use available_link_types of
             Inl e \<Rightarrow> (Inl e, s1)
           | Inr link_type \<Rightarrow>
               (case py_iter task_definitions of
                  Inl e \<Rightarrow> (Inl e, s1)
                | Inr tasks \<Rightarrow>
                    create_and_link_loop env parent_ticket_key link_type tasks [] [] s1)))"

text \<open>The numbered lines of \<^verbatim>\<open>steps_string\<close>, counting from \<open>i\<close>.\<close>

fun numbered_steps :: "env \<Rightarrow> nat \<Rightarrow> json list \<Rightarrow> string list" where
  "numbered_steps env i [] = []"
| "numbered_steps env i (step # rest) =
     (str_of_nat i @ ''. '' @ format_value env step) # numbered_steps env (Suc i) rest"

text \<open>
  What one round of the loop of \<^verbatim>\<open>process_and_create_test_cases\<close> reads from a test case,
  in the order of the source: \<^verbatim>\<open>test_id\<close>, \<^verbatim>\<open>test_name\<close> and \<^verbatim>\<open>priority\<close> for the first
  \<^verbatim>\<open>print\<close>, then \<^verbatim>\<open>description\<close>, then \<^verbatim>\<open>steps\<close> (joined with commas), then
  \<^verbatim>\<open>expected_result\<close>. The result is the title and the stripped description of the subtask.
\<close>

definition read_test_case :: "env \<Rightarrow> json \<Rightarrow> py_error + string \<times> string" where
  \<open>read_test_case env test_case =
     (case py_getitem test_case ''test_id'' of Inl e \<Rightarrow> Inl e | Inr test_id \<Rightarrow>
      case py_getitem test_case ''test_name'' of Inl e \<Rightarrow> Inl e | Inr test_name \<Rightarrow>
      case py_getitem test_case ''priority'' of Inl e \<Rightarrow> Inl e | Inr priority \<Rightarrow>
      case py_getitem test_case ''description'' of Inl e \<Rightarrow> Inl e | Inr description \<Rightarrow>
      case py_getitem test_case ''steps'' of Inl e \<Rightarrow> Inl e | Inr steps \<Rightarrow>
      case py_join '', '' steps of Inl e \<Rightarrow> Inl e | Inr joined \<Rightarrow>
      case py_getitem test_case ''expected_result'' of Inl e \<Rightarrow> Inl e | Inr expected_result \<Rightarrow>
      case py_iter steps of Inl e \<Rightarrow> Inl e | Inr items \<Rightarrow>
        (let steps_string = join_with ''\<newline>'' (numbered_steps env 1 items);
             subtask_desc =
               ''\<newline>''
                 @ ''            Test Case: ''
                 @ format_value env test_name
                 @ ''\<newline>''
                 @ ''            Description: ''
                 @ format_value env description
                 @ ''\<newline>''
                 @ ''            \<newline>''
                 @ ''            Steps:\<newline>''
                 @ ''            ''
                 @ steps_string
                 @ ''\<newline>''
                 @ ''            \<newline>''
                 @ ''            Expected Result: ''
                 @ format_value env expected_result
                 @ ''\<newline>''
                 @ ''            Priority: ''
                 @ format_value env priority
                 @ ''\<newline>''
                 @ ''            '';
             subtask_title =
               ''Test: '' @ format_value env test_name
               @ '' ['' @ format_value env priority @ '']''
         in Inr (subtask_title, py_strip subtask_desc)))\<close>

text \<open>The \<^verbatim>\<open>for\<close> loop of \<^verbatim>\<open>process_and_create_test_cases\<close>, carrying \<^verbatim>\<open>created_test_keys\<close>.\<close>

fun test_cases_loop ::
  "env \<Rightarrow> json \<Rightarrow> json list \<Rightarrow> json list \<Rightarrow> state
     \<Rightarrow> (py_error + json list) \<times> state" where
  "test_cases_loop env task_key [] created_test_keys s = (Inr created_test_keys, s)"
| "test_cases_loop env task_key (test_case # rest) created_test_keys s =
     (case read_test_case env test_case of
        Inl e \<Rightarrow> (Inl e, s)
      | Inr (subtask_title, subtask_desc) \<Rightarrow>
          (case create_jira_child_issue env task_key subtask_title subtask_desc s of
             (Inl e, s1) \<Rightarrow> (Inl e, s1)
           | (Inr new_subtask_key, s1) \<Rightarrow>
               if truthy new_subtask_key then
                 test_cases_loop env task_key rest (created_test_keys @ [new_subtask_key])
                   (sleep 1 s1)
               else test_cases_loop env task_key rest created_test_keys s1))"

definition process_and_create_test_cases ::
  "env \<Rightarrow> json \<Rightarrow> json \<Rightarrow> state \<Rightarrow> (py_error + json list) \<times> state" where
  "process_and_create_test_cases env task_key task_data s =
     (case py_getitem task_data ''summary'' of
        Inl e \<Rightarrow> (Inl e, s)
      | Inr summary \<Rightarrow>
          (case generate_test_cases_for_task env summary task_key s of
             (Inl e, s1) \<Rightarrow> (Inl e, s1)
           | (Inr test_case_definitions, s1) \<Rightarrow>
               if truthy test_case_definitions then
                 (case py_len test_case_definitions of
                    Inl e \<Rightarrow> (Inl e, s1)
                  | Inr n \<Rightarrow>
                      (case py_iter test_case_definitions of
                         Inl e \<Rightarrow> (Inl e, s1)
                       | Inr test_cases \<Rightarrow> test_cases_loop env task_key test_cases [] s1))
               else (Inr [], s1)))"






section \<open>Reading the trace of a run\<close>



text \<open>
  The tracker's answers to the requests that create a task issue, and the links requested,
  in the order of the run.
\<close>

fun issue_responses :: "event list \<Rightarrow> response list" where
  "issue_responses [] = []"
| "issue_responses (Call (PostIssue title d) r # es) = r # issue_responses es"
| "issue_responses (e # es) = issue_responses es"

fun link_requests :: "event list \<Rightarrow> (json \<times> json \<times> json) list" where
  "link_requests [] = []"
| "link_requests (Call (PostIssueLink a b c) r # es) = (a, b, c) # link_requests es"
| "link_requests (e # es) = link_requests es"

text \<open>
  A creation counts as a success when the program goes on with the key: reading the key
  from the answer does not raise and the key is truthy. \<open>answer_key\<close> is that key.
\<close>

definition creation_ok :: "response \<Rightarrow> bool" where
  "creation_ok r = (case created_issue_key r of Inl e \<Rightarrow> False | Inr k \<Rightarrow> truthy k)"

definition answer_key :: "response \<Rightarrow> json" where
  "answer_key r = (case created_issue_key r of Inl e \<Rightarrow> JNull | Inr k \<Rightarrow> k)"

text \<open>
  An answer to a creation keeps the tracker's contract when its key can be read and, if
  truthy, can be a dictionary key: status 201 comes with a body that has a key.
\<close>

definition usable_answer :: "response \<Rightarrow> bool" where
  "usable_answer r =
     (case created_issue_key r of Inl e \<Rightarrow> False | Inr k \<Rightarrow> hashable k \<or> \<not> truthy k)"

text \<open>
  The tasks whose creation succeeded, each with the key it received, given the answers in
  task order; and the dictionary that results from storing such pairs one after the other.
\<close>

definition created_pairs :: "json list \<Rightarrow> response list \<Rightarrow> (json \<times> json) list" where
  "created_pairs tasks rs =
     map (\<lambda>(task, r). (answer_key r, task)) (filter (\<lambda>(task, r). creation_ok r) (zip tasks rs))"

fun store_all :: "(json \<times> json) list \<Rightarrow> (json \<times> json) list \<Rightarrow> (json \<times> json) list" where
  "store_all m [] = m"
| "store_all m ((k, task) # ps) = store_all (AList.update (dict_key k) task m) ps"

text \<open>A task definition that has the four fields the loop reads.\<close>

fun task_ok :: "json \<Rightarrow> bool" where
  "task_ok (JObj kvs) =
     list_all (\<lambda>k. map_of kvs k \<noteq> None) [''summary'', ''category'', ''component'', ''title'']"
| "task_ok v = False"

text \<open>
  The six fields the loop of \<^verbatim>\<open>process_and_create_test_cases\<close> reads, in reading order,
  and the first of them that a dictionary lacks.
\<close>

definition test_case_fields :: "string list" where
  "test_case_fields =
     [''test_id'', ''test_name'', ''priority'', ''description'', ''steps'', ''expected_result'']"

definition first_missing :: "(string \<times> json) list \<Rightarrow> string option" where
  "first_missing kvs = List.find (\<lambda>k. map_of kvs k = None) test_case_fields"


section \<open>Sample worlds\<close>

text \<open>Concrete trackers, generators and decoders on which the theorems below are run.\<close>

definition created :: "string \<Rightarrow> response" where
  "created k = \<lparr>status_code = 201, body_text = [],
     json_body = Some (JObj [(''id'', JStr ''10000''), (''key'', JStr k)])\<rparr>"

definition linked :: response where
  "linked = \<lparr>status_code = 201, body_text = [], json_body = None\<rparr>"

definition keyless :: response where
  "keyless = \<lparr>status_code = 201, body_text = ''{}'', json_body = Some (JObj [])\<rparr>"

definition duplicate :: json where
  "duplicate = JObj [(''name'', JStr ''Duplicate''), (''inward'', JStr ''is duplicated by''),
                     (''outward'', JStr ''duplicates'')]"

definition blocks :: json where
  "blocks = JObj [(''name'', JStr ''Blocks''), (''inward'', JStr ''is blocked by''),
                  (''outward'', JStr ''blocks'')]"

fun tracker_demo :: "event list \<Rightarrow> request \<Rightarrow> response" where
  "tracker_demo h (PostIssue title d) =
     (if title = JStr ''B'' then no_response
      else created (''CPG-'' @ str_of_nat (length h)))"
| "tracker_demo h (PostChildIssue p t d) = created (''CPG-'' @ str_of_nat (length h))"
| "tracker_demo h GetSearch =
     \<lparr>status_code = 200, body_text = [], json_body = Some (JObj [(''issues'', JArr [])])\<rparr>"
| "tracker_demo h GetIssueLinkTypes =
     \<lparr>status_code = 200, body_text = [],
      json_body = Some (JObj [(''issueLinkTypes'', JArr [duplicate, blocks])])\<rparr>"
| "tracker_demo h (PostIssueLink a b c) = linked"

definition env_sample :: env where
  \<open>env_sample = \<lparr>gemini_api_keys = [Some ''k0'', Some ''k1''],
     generate_content = (\<lambda>h k p. GenText ''not json''),
     tracker = (\<lambda>h q. no_response),
     json_loads = (\<lambda>t. if t = ''[ {"a":1} ]'' then Some (JArr [JObj [(''a'', JInt 1)]])
                         else if t = ''{"a":1}'' then Some (JObj [(''a'', JInt 1)])
                         else None),
     py_str = (\<lambda>v. [])\<rparr>\<close>

definition env_demo :: env where
  "env_demo = \<lparr>gemini_api_keys = [Some ''k0'', Some ''k1''],
     generate_content = (\<lambda>h k p. GenText ''text''),
     tracker = tracker_demo,
     json_loads = (\<lambda>t. None),
     py_str = (\<lambda>v. [])\<rparr>"

definition state0 :: state where
  "state0 = \<lparr>active_gemini_key_index = 0, trace = []\<rparr>"


definition demo_task :: "string \<Rightarrow> json" where
  "demo_task t = JObj [(''summary'', JStr (''Build '' @ t)), (''category'', JStr ''Backend''),
                       (''component'', JStr ''core''), (''title'', JStr t)]"


text \<open>
  Trackers that break their contract: one answers every request with status 201 and an
  empty object, one answers the creation of task B so, one gives every task the same key.
\<close>

definition env_keyless :: env where
  "env_keyless = env_demo\<lparr>tracker := (\<lambda>h q. keyless)\<rparr>"

definition env_keyless_b :: env where
  "env_keyless_b = env_demo\<lparr>tracker :=
     (\<lambda>h q. case q of PostIssue title d \<Rightarrow>
                       if title = JStr ''B'' then keyless else tracker_demo h q
                   | _ \<Rightarrow> tracker_demo h q)\<rparr>"

definition env_same_key :: env where
  "env_same_key = env_demo\<lparr>tracker :=
     (\<lambda>h q. case q of PostIssue title d \<Rightarrow> created ''CPG-7'' | _ \<Rightarrow> tracker_demo h q)\<rparr>"

definition good_test_case :: json where
  "good_test_case = JObj [(''test_id'', JStr ''TC-1''), (''test_name'', JStr ''Login''),
     (''priority'', JStr ''High''), (''description'', JStr ''Valid login''),
     (''steps'', JArr [JStr ''open'', JStr ''click'']), (''expected_result'', JStr ''Dashboard'')]"

definition malformed_text :: string where
  \<open>malformed_text = ''[{"test_id": "TC-1", "test_name": "Login", "priority": "High", "description": "Valid login", "steps": ["open", "click"], "expected_result": "Dashboard"}, {"test_id": "TC-2"}]''\<close>

definition env_malformed :: env where
  "env_malformed = env_demo\<lparr>
     generate_content := (\<lambda>h k p. GenText malformed_text),
     json_loads := (\<lambda>t. if t = malformed_text
                          then Some (JArr [good_test_case, JObj [(''test_id'', JStr ''TC-2'')]])
                          else None)\<rparr>"



section \<open>Properties of the key-rotating generator\<close>

lemma attempted_append: "attempted (xs @ ys) = attempted xs @ attempted ys"
  by (induction xs rule: attempted.induct) auto

lemma outcomes_append: "outcomes (xs @ ys) = outcomes xs @ outcomes ys"
  by (induction xs rule: outcomes.induct) auto

lemma except_block_cursor:
  "active_gemini_key_index (except_block env start m s) =
     Suc (active_gemini_key_index s) mod length (gemini_api_keys env)"
  by (simp add: except_block_def Let_def sleep_def log_event_def)

lemma except_block_trace:
  "\<exists>pre. trace (except_block env start m s) = trace s @ pre \<and> attempted pre = [] \<and> outcomes pre = []"
  by (simp add: except_block_def Let_def sleep_def log_event_def)

lemma generate_loop_spec:
  assumes "N = length (gemini_api_keys env)" "start < N" "n \<le> N"
    "active_gemini_key_index s = (start + n) mod N"
  shows "\<exists>evs. loop_post env p start n s (generate_loop env p start n s) evs"
  using assms(3,4)
proof (induction "N - n" arbitrary: n s)
  case 0
  then have "n = N" by simp
  then have "loop_post env p start n s (generate_loop env p start n s) []"
    using 0 assms(1,2) by (subst generate_loop.simps) (simp add: loop_post_def)
  then show ?case ..
next
  case (Suc d)
  let ?c = "active_gemini_key_index s"
  let ?k = "gemini_api_keys env ! ?c"
  have nN: "n < N" using Suc.hyps(2) by simp
  have cN: "?c < N" using Suc.prems(2) nN by simp
  have init: "initialize_gemini_model env s = Inr ?k"
    using cN assms(1) by (simp add: initialize_gemini_model_def)
  show ?case
  proof (cases "generate_content env (trace s) ?k p")
    case (GenText t)
    have r: "generate_loop env p start n s = (Inr t, log_event (Generate ?c ?k p (GenText t)) s)"
      using nN assms(1) init GenText by (subst generate_loop.simps) simp
    have "loop_post env p start n s (generate_loop env p start n s) [Generate ?c ?k p (GenText t)]"
      unfolding r loop_post_def Let_def using nN Suc.prems GenText assms(1)
      apply (simp add: log_event_def)
      apply (rule exI[of _ n])
      apply (simp add: upt_rec)
      done
    then show ?thesis ..
  next
    case (GenError m)
    let ?g = "Generate ?c ?k p (GenError m)"
    define s4 where "s4 = except_block env start m (log_event ?g s)"
    have r: "generate_loop env p start n s = generate_loop env p start (Suc n) s4"
      using nN assms(1) init GenError 
      by (subst generate_loop.simps) (simp add: s4_def)
    have c4: "active_gemini_key_index s4 = (start + Suc n) mod N"
      using assms(1) Suc.prems(2)
      by (simp add: s4_def except_block_cursor log_event_def mod_Suc_eq)
    obtain pre0 where "trace s4 = trace (log_event ?g s) @ pre0" "attempted pre0 = []" "outcomes pre0 = []"
      unfolding s4_def using except_block_trace by blast
    then obtain pre where t4: "trace s4 = trace s @ pre" and a4: "attempted pre = [?c]" 
      and o4: "outcomes pre = [GenError m]"
      by (simp add: log_event_def attempted_append outcomes_append)
    have d: "d = N - Suc n" using Suc.hyps(2) by simp
    have le: "Suc n \<le> N" using nN by simp
    from Suc.hyps(1)[OF d le c4]
    obtain evs where post: "loop_post env p start (Suc n) s4 (generate_loop env p start (Suc n) s4) evs"
      by blast
    let ?res = "generate_loop env p start (Suc n) s4"
    have tr: "trace (snd ?res) = trace s @ pre @ evs"
      using post t4 by (simp add: loop_post_def Let_def)
    have "loop_post env p start n s ?res (pre @ evs)"
    proof (cases "fst ?res")
      case (Inl e)
      have hd: "map (\<lambda>i. (start + i) mod N) [n..<N] = ?c # map (\<lambda>i. (start + i) mod N) [Suc n..<N]"
        using nN Suc.prems(2) by (simp add: upt_rec[of n])
      show ?thesis
        using post Inl tr a4 o4 hd assms(1)
        by (simp add: loop_post_def Let_def attempted_append outcomes_append)
    next
      case (Inr t)
      with post obtain j fs where j: "Suc n \<le> j" "j < N"
          "attempted evs = map (\<lambda>i. (start + i) mod N) [Suc n..<Suc j]"
          "outcomes evs = fs @ [GenText t]" "list_all is_failure fs"
          "active_gemini_key_index (snd ?res) = (start + j) mod N"
          "evs \<noteq> []"
          "last evs = Generate ((start + j) mod N)
                 (gemini_api_keys env ! ((start + j) mod N)) p (GenText t)"
          "generate_content env (trace s4 @ butlast evs)
                 (gemini_api_keys env ! ((start + j) mod N)) p = GenText t"
        using assms(1) by (auto simp: loop_post_def Let_def)
      have hd': "map (\<lambda>i. (start + i) mod N) [n..<Suc j] = ?c # map (\<lambda>i. (start + i) mod N) [Suc n..<Suc j]"
        using j(1) Suc.prems(2) by (simp add: upt_rec[of n])
      have A: "attempted (pre @ evs) = map (\<lambda>i. (start + i) mod N) [n..<Suc j]"
        using hd' a4 j(3) by (simp only: attempted_append)  simp
      have B: "outcomes (pre @ evs) = (GenError m # fs) @ [GenText t]"
        using o4 j(4) by (simp add: outcomes_append)
      have C: "list_all is_failure (GenError m # fs)" using j(5) by simp
      have E: "n \<le> j" using j(1) by simp
      have F: "pre @ evs \<noteq> []" "last (pre @ evs) = last evs" 
         "trace s @ butlast (pre @ evs) = trace s4 @ butlast evs"
        using j(7) t4 by (simp_all add: butlast_append)
      have G: "generate_content env (trace s @ butlast (pre @ evs))
                 (gemini_api_keys env ! ((start + j) mod N)) p = GenText t"
        using j(9) F(3) by simp
      have H: "last (pre @ evs) = Generate ((start + j) mod N)
                 (gemini_api_keys env ! ((start + j) mod N)) p (GenText t)"
        using j(8) F(2) by simp
      show ?thesis unfolding loop_post_def Let_def Inr sum.case assms(1)[symmetric]
        by (intro conjI exI[of _ j] exI[of _ "GenError m # fs"])
           (fact tr E j(2) A B C j(6) F(1) H G)+
    qed
    then show ?thesis unfolding r ..
  qed
qed




lemma generate_spec:
  assumes "gemini_api_keys env \<noteq> []"
    and "active_gemini_key_index s < length (gemini_api_keys env)"
  shows "\<exists>evs. loop_post env p (active_gemini_key_index s) 0 s
           (generate_with_gemini_resilience env p s) evs"
  unfolding generate_with_gemini_resilience_def
  using generate_loop_spec[OF refl assms(2), of 0 s p] assms by simp



lemma generate_first_attempt:
  assumes "active_gemini_key_index s < length (gemini_api_keys env)"
    and "generate_content env (trace s) (gemini_api_keys env ! active_gemini_key_index s) p
           = GenText t"
  shows "generate_with_gemini_resilience env p s =
     (Inr t, log_event (Generate (active_gemini_key_index s)
         (gemini_api_keys env ! active_gemini_key_index s) p (GenText t)) s)"
proof -
  have "0 < length (gemini_api_keys env)" using assms(1) by auto
  then show ?thesis
    unfolding generate_with_gemini_resilience_def
    using assms by (subst generate_loop.simps) (simp add: initialize_gemini_model_def)
qed

lemma generate_first_position:
  assumes "gemini_api_keys env \<noteq> []"
    and "active_gemini_key_index s < length (gemini_api_keys env)"
  shows "attempted (drop (length (trace s))
           (trace (snd (generate_with_gemini_resilience env p s)))) \<noteq> []
       \<and> hd (attempted (drop (length (trace s))
           (trace (snd (generate_with_gemini_resilience env p s)))))
          = active_gemini_key_index s"
proof -
  let ?N = "length (gemini_api_keys env)"
  let ?c = "active_gemini_key_index s"
  let ?res = "generate_with_gemini_resilience env p s"
  obtain evs where post: "loop_post env p ?c 0 s ?res evs"
    using generate_spec[OF assms] by blast
  have tr: "trace (snd ?res) = trace s @ evs" using post by (simp add: loop_post_def Let_def)
  then have evs: "drop (length (trace s)) (trace (snd ?res)) = evs" by simp
  have N: "0 < ?N" using assms(1) by simp
  have "\<exists>m. 0 < m \<and> attempted evs = map (\<lambda>i. (?c + i) mod ?N) [0..<m]"
  proof (cases "fst ?res")
    case (Inl e)
    then show ?thesis using post N by (auto simp: loop_post_def Let_def)
  next
    case (Inr t)
    then obtain j where "attempted evs = map (\<lambda>i. (?c + i) mod ?N) [0..<Suc j]"
      using post by (auto simp: loop_post_def Let_def)
    then show ?thesis by (intro exI[of _ "Suc j"]) simp
  qed
  then obtain m where "0 < m" "attempted evs = map (\<lambda>i. (?c + i) mod ?N) [0..<m]" by blast
  then have "attempted evs = ?c # map (\<lambda>i. (?c + i) mod ?N) [Suc 0..<m]"
    using assms(2) by (simp add: upt_rec[of 0])
  then show ?thesis unfolding evs by simp
qed

text \<open>
  C8. When \<^verbatim>\<open>generate_with_gemini_resilience\<close> returns a text, the last event of the run
  is the successful remote call that produced this text (nothing follows it), and the
  cursor is left on the key of that call, inside the pool; it is not moved back to the first
  key. When the first attempt succeeds, the cursor is where it was at call entry. The next
  call makes its first attempt at the position where the cursor was left.
\<close>

theorem generate_success_keeps_cursor_on_working_key:
  assumes "gemini_api_keys env \<noteq> []"
    and "active_gemini_key_index s < length (gemini_api_keys env)"
    and "fst (generate_with_gemini_resilience env p s) = Inr t"
  shows "let s' = snd (generate_with_gemini_resilience env p s);
             c' = active_gemini_key_index s';
             k' = gemini_api_keys env ! c'
         in c' < length (gemini_api_keys env)
            \<and> trace s' \<noteq> []
            \<and> last (trace s') = Generate c' k' p (GenText t)
            \<and> generate_content env (butlast (trace s')) k' p = GenText t
            \<and> (\<forall>t0. generate_content env (trace s)
                        (gemini_api_keys env ! active_gemini_key_index s) p = GenText t0
                   \<longrightarrow> t = t0 \<and> c' = active_gemini_key_index s)
            \<and> (\<forall>p2 s2. active_gemini_key_index s2 = c' \<longrightarrow>
                   hd (attempted (drop (length (trace s2))
                         (trace (snd (generate_with_gemini_resilience env p2 s2))))) = c')"
proof -
  let ?N = "length (gemini_api_keys env)"
  let ?c = "active_gemini_key_index s"
  let ?res = "generate_with_gemini_resilience env p s"
  let ?c' = "active_gemini_key_index (snd ?res)"
  obtain evs where post: "loop_post env p ?c 0 s ?res evs"
    using generate_spec[OF assms(1,2)] by blast
  have tr: "trace (snd ?res) = trace s @ evs" using post by (simp add: loop_post_def Let_def)
  have N: "0 < ?N" using assms(1) by simp
  from post assms(3) obtain j where j: "?c' = (?c + j) mod ?N" "evs \<noteq> []"
     "last evs = Generate ((?c + j) mod ?N) (gemini_api_keys env ! ((?c + j) mod ?N)) p (GenText t)"
     "generate_content env (trace s @ butlast evs)
                 (gemini_api_keys env ! ((?c + j) mod ?N)) p = GenText t"
    by (auto simp: loop_post_def Let_def)
  have A: "?c' < ?N" using j(1) N by simp
  have B: "trace (snd ?res) \<noteq> []" using tr j(2) by simp
  have C: "last (trace (snd ?res)) = Generate ?c' (gemini_api_keys env ! ?c') p (GenText t)"
    using tr j by simp
  have D: "generate_content env (butlast (trace (snd ?res))) (gemini_api_keys env ! ?c') p
             = GenText t"
    using tr j by (simp add: butlast_append)
  have E: "\<forall>t0. generate_content env (trace s) (gemini_api_keys env ! ?c) p = GenText t0
                   \<longrightarrow> t = t0 \<and> ?c' = ?c"
  proof (intro allI impI)
    fix t0 assume "generate_content env (trace s) (gemini_api_keys env ! ?c) p = GenText t0"
    from generate_first_attempt[OF assms(2) this] assms(3)
    show "t = t0 \<and> ?c' = ?c" by (simp add: log_event_def)
  qed
  have F: "\<forall>p2 s2. active_gemini_key_index s2 = ?c' \<longrightarrow>
                   hd (attempted (drop (length (trace s2))
                         (trace (snd (generate_with_gemini_resilience env p2 s2))))) = ?c'"
    using generate_first_position[OF assms(1)] A by metis
  show ?thesis unfolding Let_def by (intro conjI) (fact A B C D E F)+
qed

theorem generate_success_keeps_cursor_on_working_key_witness:
  "gemini_api_keys env_second_key \<noteq> []
   \<and> (0::nat) < length (gemini_api_keys env_second_key)
   \<and> fst (generate_with_gemini_resilience env_second_key ''p''
           \<lparr>active_gemini_key_index = 0, trace = []\<rparr>) = Inr ''[]''
   \<and> active_gemini_key_index (snd (generate_with_gemini_resilience env_second_key ''p''
           \<lparr>active_gemini_key_index = 0, trace = []\<rparr>)) = 1
   \<and> last (trace (snd (generate_with_gemini_resilience env_second_key ''p''
           \<lparr>active_gemini_key_index = 0, trace = []\<rparr>)))
       = Generate 1 (Some ''k1'') ''p'' (GenText ''[]'')"
proof -
  let ?s = "\<lparr>active_gemini_key_index = 0, trace = []\<rparr>"
  let ?res = "generate_with_gemini_resilience env_second_key ''p'' ?s"
  have h1: "gemini_api_keys env_second_key \<noteq> []" by (simp add: env_second_key_def)
  have h2: "active_gemini_key_index ?s < length (gemini_api_keys env_second_key)"
    by (simp add: env_second_key_def)
  have run: "?res = (Inr ''[]'',
      \<lparr>active_gemini_key_index = 1,
       trace = [Generate 0 (Some ''k0'') ''p'' (GenError ''boom''),
                Generate 1 (Some ''k1'') ''p'' (GenText ''[]'')]\<rparr>)"
    by (simp add: generate_with_gemini_resilience_def generate_loop.simps
          initialize_gemini_model_def except_block_def log_event_def sleep_def
          env_second_key_def Let_def)
  have h3: "fst ?res = Inr ''[]''" using run by simp
  note T = generate_success_keeps_cursor_on_working_key[OF h1 h2 h3, unfolded Let_def]
  have "active_gemini_key_index (snd ?res) = 1" using run by simp
  then show ?thesis using h1 h2 h3 T by (simp add: env_second_key_def)
qed

section \<open>Properties of the response parser\<close>

lemma py_find_absent: "c \<notin> set t \<Longrightarrow> py_find c t = - 1"
  by (induction t) (auto simp: Let_def)

lemma py_find_nonneg: "c \<in> set t \<Longrightarrow> 0 \<le> py_find c t"
  by (induction t) (auto simp: Let_def)

lemma py_find_first: "c \<notin> set pre \<Longrightarrow> py_find c (pre @ c # rest) = int (length pre)"
  by (induction pre) (auto simp: Let_def)

lemma py_rfind_absent: "c \<notin> set t \<Longrightarrow> py_rfind c t = - 1"
  by (simp add: py_rfind_def py_find_absent)

lemma py_rfind_last: "c \<notin> set post \<Longrightarrow> py_rfind c (pre @ c # post) = int (length pre)"
  using py_find_first[of c "rev post" "rev pre"] by (simp add: py_rfind_def Let_def)

lemma py_slice_middle:
  "py_slice (pre @ mid @ post) (int (length pre)) (int (length pre) + int (length mid)) = mid"
  by (simp add: py_slice_def)

text \<open>
  C5. \<^verbatim>\<open>parse_json_from_text\<close> hands to the decoder the part of the text from the first
  \<^verbatim>\<open>[\<close> to the last \<^verbatim>\<open>]\<close>, both included, falls back to the whole text when the
  text holds no \<^verbatim>\<open>[\<close> followed later by a \<^verbatim>\<open>]\<close>, and returns \<^verbatim>\<open>None\<close> (here
  \<open>JNull\<close>) when the decoder fails; it has no other way out. The decoder is a parameter:
  when it decodes \<^verbatim>\<open>[ {"a":1} ]\<close> and \<^verbatim>\<open>{"a":1}\<close> as JSON does and rejects \<^verbatim>\<open>not json\<close>,
  the three examples of the specification come out as stated.
\<close>

theorem parse_json_from_text_brackets:
  \<open>(CHR ''['' \<notin> set pre \<longrightarrow> CHR '']'' \<notin> set post \<longrightarrow>
      parse_json_from_text env (pre @ ''['' @ mid @ '']'' @ post)
        = decode_or_none env (''['' @ mid @ '']''))
   \<and> ((\<nexists>pre mid post. raw = pre @ ''['' @ mid @ '']'' @ post) \<longrightarrow>
      parse_json_from_text env raw = decode_or_none env raw)
   \<and> (json_loads env t = None \<longrightarrow> decode_or_none env t = JNull)
   \<and> (json_loads env ''[ {"a":1} ]'' = Some v1 \<longrightarrow>
      parse_json_from_text env ''noise [ {"a":1} ] trailing'' = v1)
   \<and> (json_loads env ''{"a":1}'' = Some v2 \<longrightarrow>
      parse_json_from_text env ''{"a":1}'' = v2)
   \<and> (json_loads env ''not json'' = None \<longrightarrow>
      parse_json_from_text env ''not json'' = JNull)\<close>
proof (intro conjI impI)
  assume a: "CHR ''['' \<notin> set pre" "CHR '']'' \<notin> set post"
  have f: "py_find CHR ''['' (pre @ ''['' @ mid @ '']'' @ post) = int (length pre)"
    using py_find_first[OF a(1), of "mid @ '']'' @ post"] by simp
  have r: "py_rfind CHR '']'' (pre @ ''['' @ mid @ '']'' @ post) = int (length pre) + 1 + int (length mid)"
    using py_rfind_last[OF a(2), of "pre @ ''['' @ mid"] by simp
  have s: "py_slice (pre @ ''['' @ mid @ '']'' @ post) (int (length pre))
             (int (length pre) + 1 + int (length mid) + 1) = ''['' @ mid @ '']''"
    using py_slice_middle[of pre "''['' @ mid @ '']''" post] by (simp add: add.assoc)
  show "parse_json_from_text env (pre @ ''['' @ mid @ '']'' @ post)
        = decode_or_none env (''['' @ mid @ '']'')"
    unfolding parse_json_from_text_def Let_def f r s by simp
next
  assume n: "\<nexists>pre mid post. raw = pre @ ''['' @ mid @ '']'' @ post"
  show "parse_json_from_text env raw = decode_or_none env raw"
  proof (cases "CHR ''['' \<in> set raw")
    case False
    then show ?thesis by (simp add: parse_json_from_text_def Let_def py_find_absent)
  next
    case True
    then obtain pre rest where raw: "raw = pre @ CHR ''['' # rest" "CHR ''['' \<notin> set pre"
      by (meson split_list_first)
    have nr: "CHR '']'' \<notin> set rest"
    proof
      assume "CHR '']'' \<in> set rest"
      then obtain mid post where "rest = mid @ CHR '']'' # post" by (meson split_list)
      then have "raw = pre @ ''['' @ mid @ '']'' @ post" using raw(1) by simp
      then show False using n by blast
    qed
    have f: "py_find CHR ''['' raw = int (length pre)"
      unfolding raw(1) using py_find_first[OF raw(2)] by simp
    have "py_rfind CHR '']'' raw \<le> int (length pre) - 1"
    proof (cases "CHR '']'' \<in> set pre")
      case False
      then have "CHR '']'' \<notin> set raw" using nr raw(1) by simp
      then show ?thesis by (simp add: py_rfind_absent)
    next
      case True
      then obtain a b where pre: "pre = a @ CHR '']'' # b" "CHR '']'' \<notin> set b"
        by (meson split_list_last)
      have "CHR '']'' \<notin> set (b @ CHR ''['' # rest)" using pre(2) nr by simp
      from py_rfind_last[OF this, of a] have "py_rfind CHR '']'' raw = int (length a)"
        unfolding raw(1) pre(1) by simp
      then show ?thesis using pre(1) by simp
    qed
    then show ?thesis unfolding parse_json_from_text_def Let_def f by simp
  qed
next
  assume "json_loads env t = None"
  then show "decode_or_none env t = JNull" by (simp add: decode_or_none_def)
next
  assume l: \<open>json_loads env ''[ {"a":1} ]'' = Some v1\<close>
  have f: \<open>py_find CHR ''['' ''noise [ {"a":1} ] trailing'' = 6\<close> by (simp add: Let_def)
  have r: \<open>py_rfind CHR '']'' ''noise [ {"a":1} ] trailing'' = 16\<close>
    by (simp add: py_rfind_def Let_def)
  have s: \<open>py_slice ''noise [ {"a":1} ] trailing'' 6 17 = ''[ {"a":1} ]''\<close>
    by (simp add: py_slice_def)
  show \<open>parse_json_from_text env ''noise [ {"a":1} ] trailing'' = v1\<close>
    unfolding parse_json_from_text_def Let_def f r using s l by (simp add: decode_or_none_def)
next
  assume l: \<open>json_loads env ''{"a":1}'' = Some v2\<close>
  have f: \<open>py_find CHR ''['' ''{"a":1}'' = - 1\<close> by (simp add: Let_def)
  show \<open>parse_json_from_text env ''{"a":1}'' = v2\<close>
    unfolding parse_json_from_text_def Let_def f using l by (simp add: decode_or_none_def)
next
  assume l: \<open>json_loads env ''not json'' = None\<close>
  have f: \<open>py_find CHR ''['' ''not json'' = - 1\<close> by (simp add: Let_def)
  show \<open>parse_json_from_text env ''not json'' = JNull\<close>
    unfolding parse_json_from_text_def Let_def f using l by (simp add: decode_or_none_def)
qed

theorem parse_json_from_text_brackets_witness:
  \<open>CHR ''['' \<notin> set ''noise ''
   \<and> CHR '']'' \<notin> set '' trailing''
   \<and> (\<nexists>pre mid post. ''not json'' = pre @ ''['' @ mid @ '']'' @ post)
   \<and> json_loads env_sample ''not json'' = None
   \<and> json_loads env_sample ''[ {"a":1} ]'' = Some (JArr [JObj [(''a'', JInt 1)]])
   \<and> json_loads env_sample ''{"a":1}'' = Some (JObj [(''a'', JInt 1)])
   \<and> parse_json_from_text env_sample (''noise '' @ ''['' @ '' {"a":1} '' @ '']'' @ '' trailing'')
       = JArr [JObj [(''a'', JInt 1)]]
   \<and> parse_json_from_text env_sample ''{"a":1}'' = JObj [(''a'', JInt 1)]
   \<and> parse_json_from_text env_sample ''not json'' = JNull\<close>
proof -
  have h1: "CHR ''['' \<notin> set ''noise ''" by simp
  have h2: "CHR '']'' \<notin> set '' trailing''" by simp
  have h3: "\<nexists>pre mid post. ''not json'' = pre @ ''['' @ mid @ '']'' @ post"
  proof
    assume "\<exists>pre mid post. ''not json'' = pre @ ''['' @ mid @ '']'' @ post"
    then obtain pre mid post where "''not json'' = pre @ ''['' @ mid @ '']'' @ post" by blast
    then have "set ''not json'' = set (pre @ ''['' @ mid @ '']'' @ post)" by simp
    then have "CHR ''['' \<in> set ''not json''" by auto
    then show False by simp
  qed
  have h4: "json_loads env_sample ''not json'' = None" by (simp add: env_sample_def)
  have h5: \<open>json_loads env_sample ''[ {"a":1} ]'' = Some (JArr [JObj [(''a'', JInt 1)]])\<close>
    by (simp add: env_sample_def)
  have h6: \<open>json_loads env_sample ''{"a":1}'' = Some (JObj [(''a'', JInt 1)])\<close>
    by (simp add: env_sample_def)
  note T = parse_json_from_text_brackets
             [of "''noise ''" "'' trailing''" env_sample \<open>'' {"a":1} ''\<close> "''not json''"
                 "''not json''" "JArr [JObj [(''a'', JInt 1)]]" "JObj [(''a'', JInt 1)]"]
  have c1: \<open>parse_json_from_text env_sample
              (''noise '' @ ''['' @ '' {"a":1} '' @ '']'' @ '' trailing'')
            = decode_or_none env_sample (''['' @ '' {"a":1} '' @ '']'')\<close>
    using T h1 h2 by blast
  have c1': \<open>decode_or_none env_sample (''['' @ '' {"a":1} '' @ '']'')
             = JArr [JObj [(''a'', JInt 1)]]\<close>
    by (simp add: decode_or_none_def env_sample_def)
  have c2: \<open>parse_json_from_text env_sample ''{"a":1}'' = JObj [(''a'', JInt 1)]\<close>
    using T h6 by blast
  have c3: \<open>parse_json_from_text env_sample ''not json'' = JNull\<close>
    using T h4 by blast
  show ?thesis using h1 h2 h3 h4 h5 h6 c1 c1' c2 c3 by (intro conjI) simp_all
qed


section \<open>Auxiliary facts about the tracker client\<close>

lemma create_jira_issue_eq:
  "create_jira_issue env title d s =
     (created_issue_key (tracker env (trace s) (PostIssue title d)),
      log_event (Call (PostIssue title d) (tracker env (trace s) (PostIssue title d))) s)"
  by (simp add: create_jira_issue_def http_def Let_def)


lemma str_of_nat_digit: "n < 10 \<Longrightarrow> str_of_nat n = [''0123456789'' ! n]"
  by (simp add: str_of_nat.simps)

lemma create_jira_child_issue_eq:
  "create_jira_child_issue env parent t d s =
     (created_issue_key (tracker env (trace s) (PostChildIssue parent t d)),
      log_event (Call (PostChildIssue parent t d)
                   (tracker env (trace s) (PostChildIssue parent t d))) s)"
  by (simp add: create_jira_child_issue_def http_def Let_def)

section \<open>Properties of the tracker client\<close>

text \<open>
  C6, as stated, fails: on status 201 the two creating operations decode the body and read
  its member \<^verbatim>\<open>key\<close> without a guard, so an answer with status 201 and an empty object
  makes them raise \<^verbatim>\<open>KeyError\<close> instead of returning a key.
\<close>

theorem tracker_raises_on_created_without_key_counterexample:
  "status_code (tracker env_keyless (trace state0) (PostIssue (JStr ''A'') ''d'')) = 201
   \<and> fst (create_jira_issue env_keyless (JStr ''A'') ''d'' state0) = Inl (KeyError ''key'')
   \<and> status_code (tracker env_keyless (trace state0)
         (PostChildIssue (JStr ''CPG-1'') ''t'' ''d'')) = 201
   \<and> fst (create_jira_child_issue env_keyless (JStr ''CPG-1'') ''t'' ''d'' state0)
       = Inl (KeyError ''key'')"
  by (simp add: create_jira_issue_def create_jira_child_issue_def created_issue_key_def
        http_def env_keyless_def env_demo_def keyless_def state0_def Let_def)

text \<open>
  C6, amended. On the tracker's answer to the request: \<^verbatim>\<open>create_jira_issue\<close> and
  \<^verbatim>\<open>create_jira_child_issue\<close> return \<^verbatim>\<open>None\<close> without raising on every status other
  than 201; on status 201 they return the member \<^verbatim>\<open>key\<close> of the decoded body when the
  body is a dictionary that has it, and raise when the body does not decode or the member
  cannot be read; they return something other than \<^verbatim>\<open>None\<close> only on
  status 201. \<^verbatim>\<open>get_project_issues\<close> and \<^verbatim>\<open>get_jira_issue_link_types\<close> return the
  empty list without raising when the status is not 200. \<^verbatim>\<open>link_jira_issues\<close> returns
  whether the status is 201, whatever the body of the answer.
\<close>

theorem tracker_operations_return_sentinels:
  "(status_code (tracker env (trace s) (PostIssue title d)) \<noteq> 201 \<longrightarrow>
      fst (create_jira_issue env title d s) = Inr JNull)
   \<and> (\<forall>body k. status_code (tracker env (trace s) (PostIssue title d)) = 201 \<longrightarrow>
         json_body (tracker env (trace s) (PostIssue title d)) = Some body \<longrightarrow>
         py_getitem body ''key'' = Inr k \<longrightarrow>
         fst (create_jira_issue env title d s) = Inr k)
   \<and> (\<forall>k. fst (create_jira_issue env title d s) = Inr k \<longrightarrow> k \<noteq> JNull \<longrightarrow>
         status_code (tracker env (trace s) (PostIssue title d)) = 201)
   \<and> (\<forall>body e. status_code (tracker env (trace s) (PostIssue title d)) = 201 \<longrightarrow>
         json_body (tracker env (trace s) (PostIssue title d)) = Some body \<longrightarrow>
         py_getitem body ''key'' = Inl e \<longrightarrow>
         fst (create_jira_issue env title d s) = Inl e)
   \<and> (status_code (tracker env (trace s) (PostIssue title d)) = 201 \<longrightarrow>
         json_body (tracker env (trace s) (PostIssue title d)) = None \<longrightarrow>
         fst (create_jira_issue env title d s) = Inl JSONDecodeError)
   \<and> (status_code (tracker env (trace s) (PostChildIssue parent t d)) \<noteq> 201 \<longrightarrow>
      fst (create_jira_child_issue env parent t d s) = Inr JNull)
   \<and> (\<forall>body k. status_code (tracker env (trace s) (PostChildIssue parent t d)) = 201 \<longrightarrow>
         json_body (tracker env (trace s) (PostChildIssue parent t d)) = Some body \<longrightarrow>
         py_getitem body ''key'' = Inr k \<longrightarrow>
         fst (create_jira_child_issue env parent t d s) = Inr k)
   \<and> (\<forall>k. fst (create_jira_child_issue env parent t d s) = Inr k \<longrightarrow> k \<noteq> JNull \<longrightarrow>
         status_code (tracker env (trace s) (PostChildIssue parent t d)) = 201)
   \<and> (\<forall>body e. status_code (tracker env (trace s) (PostChildIssue parent t d)) = 201 \<longrightarrow>
         json_body (tracker env (trace s) (PostChildIssue parent t d)) = Some body \<longrightarrow>
         py_getitem body ''key'' = Inl e \<longrightarrow>
         fst (create_jira_child_issue env parent t d s) = Inl e)
   \<and> (status_code (tracker env (trace s) (PostChildIssue parent t d)) = 201 \<longrightarrow>
         json_body (tracker env (trace s) (PostChildIssue parent t d)) = None \<longrightarrow>
         fst (create_jira_child_issue env parent t d s) = Inl JSONDecodeError)
   \<and> (status_code (tracker env (trace s) GetSearch) \<noteq> 200 \<longrightarrow>
      fst (get_project_issues env s) = Inr (JArr []))
   \<and> (status_code (tracker env (trace s) GetIssueLinkTypes) \<noteq> 200 \<longrightarrow>
      fst (get_jira_issue_link_types env s) = Inr (JArr []))
   \<and> fst (link_jira_issues env a b c s)
        = (status_code (tracker env (trace s) (PostIssueLink a b c)) = 201)"
  by (auto simp: create_jira_issue_def create_jira_child_issue_def created_issue_key_def
        get_project_issues_def get_jira_issue_link_types_def link_jira_issues_def http_def
        Let_def split: if_splits)

theorem tracker_operations_return_sentinels_witness:
  "status_code (tracker env_all_fail (trace state0) (PostIssue (JStr ''A'') ''d'')) \<noteq> 201
   \<and> fst (create_jira_issue env_all_fail (JStr ''A'') ''d'' state0) = Inr JNull
   \<and> status_code (tracker env_demo (trace state0) (PostIssue (JStr ''A'') ''d'')) = 201
   \<and> json_body (tracker env_demo (trace state0) (PostIssue (JStr ''A'') ''d''))
       = Some (JObj [(''id'', JStr ''10000''), (''key'', JStr ''CPG-0'')])
   \<and> py_getitem (JObj [(''id'', JStr ''10000''), (''key'', JStr ''CPG-0'')]) ''key''
       = Inr (JStr ''CPG-0'')
   \<and> fst (create_jira_issue env_demo (JStr ''A'') ''d'' state0) = Inr (JStr ''CPG-0'')
   \<and> status_code (tracker env_all_fail (trace state0)
         (PostChildIssue (JStr ''CPG-0'') ''t'' ''d'')) \<noteq> 201
   \<and> fst (create_jira_child_issue env_all_fail (JStr ''CPG-0'') ''t'' ''d'' state0) = Inr JNull
   \<and> status_code (tracker env_demo (trace state0)
         (PostChildIssue (JStr ''CPG-0'') ''t'' ''d'')) = 201
   \<and> fst (create_jira_child_issue env_demo (JStr ''CPG-0'') ''t'' ''d'' state0)
       = Inr (JStr ''CPG-0'')
   \<and> status_code (tracker env_all_fail (trace state0) GetSearch) \<noteq> 200
   \<and> fst (get_project_issues env_all_fail state0) = Inr (JArr [])
   \<and> status_code (tracker env_all_fail (trace state0) GetIssueLinkTypes) \<noteq> 200
   \<and> fst (get_jira_issue_link_types env_all_fail state0) = Inr (JArr [])
   \<and> fst (link_jira_issues env_demo (JStr ''CPG-0'') (JStr ''CPG-1'') (JStr ''Blocks'') state0)
       = True
   \<and> fst (link_jira_issues env_all_fail (JStr ''CPG-0'') (JStr ''CPG-1'') (JStr ''Blocks'')
            state0) = False"
proof -
  note A = tracker_operations_return_sentinels
             [of env_demo state0 "JStr ''A''" "''d''" "JStr ''CPG-0''" "''t''"
                 "JStr ''CPG-0''" "JStr ''CPG-1''" "JStr ''Blocks''"]
  note C = tracker_operations_return_sentinels
             [of env_all_fail state0 "JStr ''A''" "''d''" "JStr ''CPG-0''" "''t''"
                 "JStr ''CPG-0''" "JStr ''CPG-1''" "JStr ''Blocks''"]
  have d: "tracker env_demo = tracker_demo" "tracker env_all_fail = (\<lambda>h q. no_response)"
    "trace state0 = []"
    by (simp_all add: env_demo_def env_all_fail_def state0_def)
  have k: "str_of_nat 0 = ''0''" by (simp add: str_of_nat.simps)
  show ?thesis using A C unfolding d
    by (simp add: created_def no_response_def linked_def k)
qed

section \<open>The loop of task creation\<close>

lemma issue_responses_append:
  "issue_responses (xs @ ys) = issue_responses xs @ issue_responses ys"
  by (induction xs rule: issue_responses.induct) auto

lemma link_requests_append:
  "link_requests (xs @ ys) = link_requests xs @ link_requests ys"
  by (induction xs rule: link_requests.induct) auto

lemma link_to_parent_trace:
  "\<exists>evs. trace (link_to_parent env parent lt k s) = trace s @ evs
     \<and> issue_responses evs = []
     \<and> link_requests evs = (if truthy lt then [(parent, k, lt)] else [])"
  by (auto simp: link_to_parent_def link_jira_issues_def http_def sleep_def log_event_def Let_def)

lemma read_task_ok: "task_ok task \<Longrightarrow> \<exists>x. read_task env parent task = Inr x"
  by (cases task) (auto simp: read_task_def split: option.splits)

lemma read_task_truthy: "read_task env parent task = Inr x \<Longrightarrow> truthy task"
  by (cases task) (auto simp: read_task_def split: option.splits sum.splits)

lemma read_link_types_names:
  "read_link_types link_types = Inr u \<Longrightarrow> \<exists>names. link_type_names link_types = Inr names
      \<and> length names = length link_types"
proof (induction link_types)
  case Nil
  then show ?case by simp
next
  case (Cons lt rest)
  then show ?case
    by (auto simp: read_link_type_def split: sum.splits)
qed

lemma get_jira_issue_link_types_trace:
  "trace (snd (get_jira_issue_link_types env s))
     = trace s @ [Call GetIssueLinkTypes (tracker env (trace s) GetIssueLinkTypes)]"
  by (simp add: get_jira_issue_link_types_def http_def log_event_def Let_def)

lemma get_jira_issue_link_types_readable:
  assumes "fst (get_jira_issue_link_types env s) = Inr available"
  shows "\<exists>link_types names. py_iter available = Inr link_types
           \<and> link_type_names link_types = Inr names
           \<and> length names = length link_types
           \<and> (truthy available \<longleftrightarrow> link_types \<noteq> [])"
proof (cases "status_code (tracker env (trace s) GetIssueLinkTypes) = 200")
  case False
  then have "available = JArr []"
    using assms by (simp add: get_jira_issue_link_types_def http_def Let_def)
  then show ?thesis by simp
next
  case True
  then obtain link_types u where it: "py_iter available = Inr link_types"
    and r: "read_link_types link_types = Inr u"
    using assms
    by (auto simp: get_jira_issue_link_types_def http_def Let_def
             split: option.splits sum.splits)
  from read_link_types_names[OF r] obtain names where
    n: "link_type_names link_types = Inr names" "length names = length link_types" by blast
  have t: "truthy available \<longleftrightarrow> link_types \<noteq> []"
    using it by (cases available) auto
  show ?thesis using it n t by blast
qed

lemma link_type_names_hd:
  "link_type_names (lt # rest) = Inr names \<Longrightarrow> py_getitem lt ''name'' = Inr (hd names)"
  by (auto split: sum.splits)




section \<open>Choice of the link type\<close>




section \<open>Properties of the task planner\<close>




lemma fst_generate_test_cases:
  "fst (generate_test_cases_for_task env task_summary parent_key s) =
     (case fst (generate_with_gemini_resilience env
                  (test_cases_prompt env task_summary parent_key) s) of
        Inl e \<Rightarrow> Inl e | Inr raw \<Rightarrow> Inr (parse_json_from_text env raw))"
  by (cases "generate_with_gemini_resilience env
                  (test_cases_prompt env task_summary parent_key) s")
     (simp add: generate_test_cases_for_task_def split: sum.splits)





section \<open>Properties of the top-level run\<close>







section \<open>Properties of task creation and linking\<close>

lemma create_and_link_loop_inv:
  assumes "\<forall>k \<in> set keys0. hashable k \<and> (\<exists>t. map_of m0 (dict_key k) = Some t)"
    and "\<forall>k t. map_of m0 k = Some t \<longrightarrow> truthy t"
    and "fst (create_and_link_loop env parent lt tasks keys0 m0 s) = Inr (keys, m)"
  shows "(\<forall>k \<in> set keys. hashable k \<and> (\<exists>t. map_of m (dict_key k) = Some t))
         \<and> (\<forall>k t. map_of m k = Some t \<longrightarrow> truthy t)"
  using assms
proof (induction tasks arbitrary: keys0 m0 s)
  case Nil
  then show ?case by simp
next
  case (Cons task rest)
  from Cons.prems(3) obtain x where x: "read_task env parent task = Inr x"
    by (cases "read_task env parent task") auto
  obtain title d where xd: "x = (title, d)" by (cases x)
  have tt: "truthy task" using read_task_truthy[OF x] .
  let ?r = "tracker env (trace s) (PostIssue title d)"
  let ?s1 = "log_event (Call (PostIssue title d) ?r) s"
  from Cons.prems(3) obtain k where k: "created_issue_key ?r = Inr k"
    using x xd by (cases "created_issue_key ?r") (auto simp: create_jira_issue_eq)
  show ?case
  proof (cases "truthy k")
    case False
    have "create_and_link_loop env parent lt (task # rest) keys0 m0 s
            = create_and_link_loop env parent lt rest keys0 m0 ?s1"
      using x xd k False by (simp add: create_jira_issue_eq)
    then show ?thesis using Cons.IH[OF Cons.prems(1,2)] Cons.prems(3) by simp
  next
    case True
    have h: "hashable k"
      using Cons.prems(3) x xd k True
      by (cases "hashable k") (auto simp: create_jira_issue_eq dict_set_def)
    let ?m1 = "AList.update (dict_key k) task m0"
    have step: "create_and_link_loop env parent lt (task # rest) keys0 m0 s
            = create_and_link_loop env parent lt rest (keys0 @ [k]) ?m1
                (link_to_parent env parent lt k ?s1)"
      using x xd k True h by (simp add: create_jira_issue_eq dict_set_def)
    have a: "\<forall>k' \<in> set (keys0 @ [k]). hashable k' \<and> (\<exists>t. map_of ?m1 (dict_key k') = Some t)"
      using Cons.prems(1) h by (auto simp: update_conv')
    have b: "\<forall>k' t. map_of ?m1 k' = Some t \<longrightarrow> truthy t"
      using Cons.prems(2) tt by (auto simp: update_conv')
    show ?thesis using Cons.IH[OF a b] Cons.prems(3) unfolding step by simp
  qed
qed

text \<open>
  C9. Every key in the list returned by \<^verbatim>\<open>create_and_link_tasks\<close> has an entry in the
  dictionary returned with it: looking the key up, as step 5 of \<^verbatim>\<open>main\<close> does with
  \<^verbatim>\<open>get\<close>, finds a task, and the task is truthy. These are the two conditions under
  which step 5 processes a key, so the branch that skips a key with a warning is not taken
  for any of them.
\<close>

theorem created_keys_have_task_data:
  assumes "fst (create_and_link_tasks env parent task_definitions s) = Inr (keys, m)"
  shows "\<forall>k \<in> set keys. \<exists>task_data. dict_get m k = Inr (Some task_data) \<and> truthy task_data"
proof -
  obtain got s1 where g: "get_jira_issue_link_types env s = (got, s1)"
    by (cases "get_jira_issue_link_types env s")
  obtain available where av: "got = Inr available"
    using assms g by (cases got) (auto simp: create_and_link_tasks_def)
  obtain lt where lt: "link_type_to_use available = Inr lt"
    using assms g av by (cases "link_type_to_use available")
                        (auto simp: create_and_link_tasks_def)
  obtain tasks where it: "py_iter task_definitions = Inr tasks"
    using assms g av lt by (cases "py_iter task_definitions")
                           (auto simp: create_and_link_tasks_def)
  have "fst (create_and_link_loop env parent lt tasks [] [] s1) = Inr (keys, m)"
    using assms g av lt it by (simp add: create_and_link_tasks_def)
  from create_and_link_loop_inv[OF _ _ this] show ?thesis by (auto simp: dict_get_def)
qed

lemma create_and_link_tasks_demo:
  "create_and_link_tasks env_demo (JStr ''CPG-0'')
       (JArr [demo_task ''A'', demo_task ''B'', demo_task ''C'']) state0 =
     (Inr ([JStr ''CPG-1'', JStr ''CPG-5''],
           [(JStr ''CPG-1'', demo_task ''A''), (JStr ''CPG-5'', demo_task ''C'')]),
      \<lparr>active_gemini_key_index = 0,
       trace = [Call GetIssueLinkTypes (tracker_demo [] GetIssueLinkTypes),
                Call (PostIssue (JStr ''A'')
                  ''Build A\<newline>\<newline>Category: Backend\<newline>Component: core\<newline>Parent Requirement: CPG-0'')
                  (created ''CPG-1''),
                Sleep 1,
                Call (PostIssueLink (JStr ''CPG-0'') (JStr ''CPG-1'') (JStr ''Blocks'')) linked,
                Call (PostIssue (JStr ''B'')
                  ''Build B\<newline>\<newline>Category: Backend\<newline>Component: core\<newline>Parent Requirement: CPG-0'')
                  no_response,
                Call (PostIssue (JStr ''C'')
                  ''Build C\<newline>\<newline>Category: Backend\<newline>Component: core\<newline>Parent Requirement: CPG-0'')
                  (created ''CPG-5''),
                Sleep 1,
                Call (PostIssueLink (JStr ''CPG-0'') (JStr ''CPG-5'') (JStr ''Blocks'')) linked]\<rparr>)"
  by (simp add: create_and_link_tasks_def get_jira_issue_link_types_def http_def log_event_def
        link_type_to_use_def preferred_link_types_def duplicate_def blocks_def
        read_link_type_def read_task_def demo_task_def create_jira_issue_def
        created_issue_key_def dict_set_def link_to_parent_def
        link_jira_issues_def sleep_def env_demo_def state0_def created_def no_response_def
        str_of_nat_digit Let_def)

theorem created_keys_have_task_data_witness:
  "fst (create_and_link_tasks env_demo (JStr ''CPG-0'')
            (JArr [demo_task ''A'', demo_task ''B'', demo_task ''C'']) state0)
       = Inr ([JStr ''CPG-1'', JStr ''CPG-5''],
              [(JStr ''CPG-1'', demo_task ''A''), (JStr ''CPG-5'', demo_task ''C'')])
   \<and> (\<exists>task_data.
         dict_get [(JStr ''CPG-1'', demo_task ''A''), (JStr ''CPG-5'', demo_task ''C'')]
           (JStr ''CPG-1'') = Inr (Some task_data) \<and> truthy task_data)
   \<and> (\<exists>task_data.
         dict_get [(JStr ''CPG-1'', demo_task ''A''), (JStr ''CPG-5'', demo_task ''C'')]
           (JStr ''CPG-5'') = Inr (Some task_data) \<and> truthy task_data)"
proof -
  have h: "fst (create_and_link_tasks env_demo (JStr ''CPG-0'')
            (JArr [demo_task ''A'', demo_task ''B'', demo_task ''C'']) state0)
       = Inr ([JStr ''CPG-1'', JStr ''CPG-5''],
              [(JStr ''CPG-1'', demo_task ''A''), (JStr ''CPG-5'', demo_task ''C'')])"
    by (simp add: create_and_link_tasks_demo)
  note T = created_keys_have_task_data[OF h]
  have m1: "JStr ''CPG-1'' \<in> set [JStr ''CPG-1'', JStr ''CPG-5'']" by simp
  have m2: "JStr ''CPG-5'' \<in> set [JStr ''CPG-1'', JStr ''CPG-5'']" by simp
  show ?thesis by (intro conjI) (fact h T[THEN bspec, OF m1] T[THEN bspec, OF m2])+
qed

lemma created_pairs_Nil: "created_pairs [] rs = []"
  by (simp add: created_pairs_def)

lemma created_pairs_Cons:
  "created_pairs (task # rest) (r # rs)
     = (if creation_ok r then [(answer_key r, task)] else []) @ created_pairs rest rs"
  by (simp add: created_pairs_def)

lemma create_and_link_loop_spec:
  assumes "fst (create_and_link_loop env parent lt tasks keys0 m0 s) = Inr (keys, m)"
  shows "\<exists>evs. trace (snd (create_and_link_loop env parent lt tasks keys0 m0 s)) = trace s @ evs
     \<and> length (issue_responses evs) = length tasks
     \<and> keys = keys0 @ map fst (created_pairs tasks (issue_responses evs))
     \<and> m = store_all m0 (created_pairs tasks (issue_responses evs))
     \<and> link_requests evs =
         (if truthy lt
          then map (\<lambda>k. (parent, k, lt)) (map fst (created_pairs tasks (issue_responses evs)))
          else [])"
  using assms
proof (induction tasks arbitrary: keys0 m0 s)
  case Nil
  then show ?case by (simp add: created_pairs_Nil)
next
  case (Cons task rest)
  from Cons.prems obtain x where x: "read_task env parent task = Inr x"
    by (cases "read_task env parent task") auto
  obtain title d where xd: "x = (title, d)" by (cases x)
  let ?r = "tracker env (trace s) (PostIssue title d)"
  let ?s1 = "log_event (Call (PostIssue title d) ?r) s"
  have s1: "trace ?s1 = trace s @ [Call (PostIssue title d) ?r]" by (simp add: log_event_def)
  from Cons.prems obtain k where k: "created_issue_key ?r = Inr k"
    using x xd by (cases "created_issue_key ?r") (auto simp: create_jira_issue_eq)
  show ?case
  proof (cases "truthy k")
    case False
    let ?res = "create_and_link_loop env parent lt rest keys0 m0 ?s1"
    have step: "create_and_link_loop env parent lt (task # rest) keys0 m0 s = ?res"
      using x xd k False by (simp add: create_jira_issue_eq)
    have nok: "\<not> creation_ok ?r" using k False by (simp add: creation_ok_def)
    have "fst ?res = Inr (keys, m)" using Cons.prems unfolding step .
    from Cons.IH[OF this] obtain evs where
      tr: "trace (snd ?res) = trace ?s1 @ evs" and
      len: "length (issue_responses evs) = length rest" and
      ks: "keys = keys0 @ map fst (created_pairs rest (issue_responses evs))" and
      ms: "m = store_all m0 (created_pairs rest (issue_responses evs))" and
      ls: "link_requests evs =
         (if truthy lt
          then map (\<lambda>k. (parent, k, lt)) (map fst (created_pairs rest (issue_responses evs)))
          else [])"
      by blast
    let ?evs = "Call (PostIssue title d) ?r # evs"
    have i: "issue_responses ?evs = ?r # issue_responses evs" by simp
    have l: "link_requests ?evs = link_requests evs" by simp
    have c: "created_pairs (task # rest) (?r # issue_responses evs)
               = created_pairs rest (issue_responses evs)"
      using nok by (simp add: created_pairs_Cons)
    have tr': "trace (snd ?res) = trace s @ ?evs" using tr s1 by simp
    show ?thesis unfolding step
      by (intro exI[of _ ?evs] conjI)
         (use tr' len ks ms ls nok in \<open>simp_all add: created_pairs_Cons\<close>)
  next
    case True
    have h: "hashable k"
      using Cons.prems x xd k True
      by (cases "hashable k") (auto simp: create_jira_issue_eq dict_set_def)
    let ?s2 = "link_to_parent env parent lt k ?s1"
    let ?m1 = "AList.update (dict_key k) task m0"
    let ?res = "create_and_link_loop env parent lt rest (keys0 @ [k]) ?m1 ?s2"
    have step: "create_and_link_loop env parent lt (task # rest) keys0 m0 s = ?res"
      using x xd k True h by (simp add: create_jira_issue_eq dict_set_def)
    have ok: "creation_ok ?r" "answer_key ?r = k"
      using k True by (simp_all add: creation_ok_def answer_key_def)
    obtain lev where lev: "trace ?s2 = trace ?s1 @ lev" "issue_responses lev = []"
      "link_requests lev = (if truthy lt then [(parent, k, lt)] else [])"
      using link_to_parent_trace[of env parent lt k ?s1] by blast
    have "fst ?res = Inr (keys, m)" using Cons.prems unfolding step .
    from Cons.IH[OF this] obtain evs where
      tr: "trace (snd ?res) = trace ?s2 @ evs" and
      len: "length (issue_responses evs) = length rest" and
      ks: "keys = (keys0 @ [k]) @ map fst (created_pairs rest (issue_responses evs))" and
      ms: "m = store_all ?m1 (created_pairs rest (issue_responses evs))" and
      ls: "link_requests evs =
         (if truthy lt
          then map (\<lambda>k. (parent, k, lt)) (map fst (created_pairs rest (issue_responses evs)))
          else [])"
      by blast
    let ?evs = "Call (PostIssue title d) ?r # lev @ evs"
    have i: "issue_responses ?evs = ?r # issue_responses evs"
      using lev(2) by (simp add: issue_responses_append)
    have l: "link_requests ?evs = link_requests lev @ link_requests evs"
      by (simp add: link_requests_append)
    have c: "created_pairs (task # rest) (?r # issue_responses evs)
               = (k, task) # created_pairs rest (issue_responses evs)"
      using ok by (simp add: created_pairs_Cons)
    have tr': "trace (snd ?res) = trace s @ ?evs" using tr s1 lev(1) by simp
    show ?thesis unfolding step
      by (intro exI[of _ ?evs] conjI)
         (use tr' len ks ms ls lev(2,3) ok in
            \<open>simp_all add: created_pairs_Cons issue_responses_append link_requests_append\<close>)
  qed
qed

lemma create_and_link_loop_returns:
  assumes "list_all task_ok tasks"
    and "\<forall>h title d. usable_answer (tracker env h (PostIssue title d))"
  shows "\<exists>keys m. fst (create_and_link_loop env parent lt tasks keys0 m0 s) = Inr (keys, m)"
  using assms(1)
proof (induction tasks arbitrary: keys0 m0 s)
  case Nil
  then show ?case by simp
next
  case (Cons task rest)
  then obtain x where x: "read_task env parent task = Inr x"
    using read_task_ok[of task env parent] by auto
  obtain title d where xd: "x = (title, d)" by (cases x)
  let ?r = "tracker env (trace s) (PostIssue title d)"
  have u: "usable_answer ?r" using assms(2) by blast
  then obtain k where k: "created_issue_key ?r = Inr k" "hashable k \<or> \<not> truthy k"
    by (cases "created_issue_key ?r") (auto simp: usable_answer_def)
  have r: "list_all task_ok rest" using Cons.prems by simp
  show ?case
  proof (cases "truthy k")
    case False
    then show ?thesis using x xd k Cons.IH[OF r] by (simp add: create_jira_issue_eq)
  next
    case True
    then have "hashable k" using k(2) by simp
    then show ?thesis using x xd k True Cons.IH[OF r]
      by (simp add: create_jira_issue_eq dict_set_def)
  qed
qed

lemma store_all_dom:
  "fst ` set (store_all m ps) = fst ` set m \<union> dict_key ` fst ` set ps"
  by (induction m ps rule: store_all.induct) (auto simp: dom_update)

lemma store_all_distinct: "distinct (map fst m) \<Longrightarrow> distinct (map fst (store_all m ps))"
  by (induction m ps rule: store_all.induct) (auto simp: distinct_update)

lemma update_fresh: "k \<notin> fst ` set m \<Longrightarrow> AList.update k v m = m @ [(k, v)]"
  by (induction m) auto

lemma store_all_fresh:
  "distinct (map fst m @ map (\<lambda>p. dict_key (fst p)) ps) \<Longrightarrow>
     store_all m ps = m @ map (\<lambda>(k, task). (dict_key k, task)) ps"
proof (induction m ps rule: store_all.induct)
  case (1 m)
  then show ?case by simp
next
  case (2 m k task ps)
  have "dict_key k \<notin> fst ` set m" using 2(2) by auto
  then have u: "AList.update (dict_key k) task m = m @ [(dict_key k, task)]"
    by (rule update_fresh)
  have "distinct (map fst (m @ [(dict_key k, task)]) @ map (\<lambda>p. dict_key (fst p)) ps)"
    using 2(2) by simp
  then show ?case using 2(1) u by simp
qed

lemma created_pairs_keys:
  "length rs = length tasks \<Longrightarrow>
     map fst (created_pairs tasks rs) = map answer_key (filter creation_ok rs)"
  by (induction rs tasks rule: list_induct2) (auto simp: created_pairs_def)

lemma creation_ok_iff: "creation_ok r \<longleftrightarrow> status_code r = 201 \<and> truthy (answer_key r)"
  by (auto simp: creation_ok_def answer_key_def created_issue_key_def
           split: sum.splits option.splits if_splits)

text \<open>
  C4, as stated, fails. A tracker that answers two creations with status 201 and the same
  key leaves one entry in the dictionary for two successes. And a round of the loop can end
  the whole call: a creation answered with status 201 and a body without \<^verbatim>\<open>key\<close> raises
  \<^verbatim>\<open>KeyError\<close> out of \<^verbatim>\<open>create_and_link_tasks\<close>, and so does a task definition
  that lacks a field the loop reads; the tasks after it are never sent to the tracker.
\<close>

theorem create_and_link_tasks_one_entry_per_success_counterexample:
  "map creation_ok (issue_responses (trace (snd (create_and_link_tasks env_same_key
        (JStr ''CPG-0'') (JArr [demo_task ''A'', demo_task ''C'']) state0)))) = [True, True]
   \<and> fst (create_and_link_tasks env_same_key (JStr ''CPG-0'')
            (JArr [demo_task ''A'', demo_task ''C'']) state0)
       = Inr ([JStr ''CPG-7'', JStr ''CPG-7''], [(JStr ''CPG-7'', demo_task ''C'')])
   \<and> fst (create_and_link_tasks env_keyless_b (JStr ''CPG-0'')
            (JArr [demo_task ''A'', demo_task ''B'', demo_task ''C'']) state0)
       = Inl (KeyError ''key'')
   \<and> map status_code (issue_responses (trace (snd (create_and_link_tasks env_keyless_b
        (JStr ''CPG-0'') (JArr [demo_task ''A'', demo_task ''B'', demo_task ''C'']) state0))))
       = [201, 201]
   \<and> fst (create_and_link_tasks env_demo (JStr ''CPG-0'')
            (JArr [demo_task ''A'', JObj [(''title'', JStr ''X'')], demo_task ''C'']) state0)
       = Inl (KeyError ''summary'')
   \<and> length (issue_responses (trace (snd (create_and_link_tasks env_demo (JStr ''CPG-0'')
            (JArr [demo_task ''A'', JObj [(''title'', JStr ''X'')], demo_task ''C''])
            state0)))) = 1"
proof -
  have c: "creation_ok (created ''CPG-7'')"
    by (simp add: creation_ok_def created_issue_key_def created_def)
  have a: "create_and_link_tasks env_same_key
        (JStr ''CPG-0'') (JArr [demo_task ''A'', demo_task ''C'']) state0
      = (Inr ([JStr ''CPG-7'', JStr ''CPG-7''], [(JStr ''CPG-7'', demo_task ''C'')]),
         \<lparr>active_gemini_key_index = 0,
          trace = [Call GetIssueLinkTypes (tracker_demo [] GetIssueLinkTypes),
                Call (PostIssue (JStr ''A'')
                  ''Build A\<newline>\<newline>Category: Backend\<newline>Component: core\<newline>Parent Requirement: CPG-0'')
                  (created ''CPG-7''),
                Sleep 1,
                Call (PostIssueLink (JStr ''CPG-0'') (JStr ''CPG-7'') (JStr ''Blocks'')) linked,
                Call (PostIssue (JStr ''C'')
                  ''Build C\<newline>\<newline>Category: Backend\<newline>Component: core\<newline>Parent Requirement: CPG-0'')
                  (created ''CPG-7''),
                Sleep 1,
                Call (PostIssueLink (JStr ''CPG-0'') (JStr ''CPG-7'') (JStr ''Blocks'')) linked]\<rparr>)"
    by (simp add: create_and_link_tasks_def get_jira_issue_link_types_def http_def log_event_def
        link_type_to_use_def preferred_link_types_def duplicate_def blocks_def
        read_link_type_def read_task_def demo_task_def create_jira_issue_def
        created_issue_key_def dict_set_def link_to_parent_def
        link_jira_issues_def sleep_def env_same_key_def env_demo_def state0_def created_def
        Let_def)
  have b: "create_and_link_tasks env_keyless_b (JStr ''CPG-0'')
            (JArr [demo_task ''A'', demo_task ''B'', demo_task ''C'']) state0
      = (Inl (KeyError ''key''),
         \<lparr>active_gemini_key_index = 0,
          trace = [Call GetIssueLinkTypes (tracker_demo [] GetIssueLinkTypes),
                Call (PostIssue (JStr ''A'')
                  ''Build A\<newline>\<newline>Category: Backend\<newline>Component: core\<newline>Parent Requirement: CPG-0'')
                  (created ''CPG-1''),
                Sleep 1,
                Call (PostIssueLink (JStr ''CPG-0'') (JStr ''CPG-1'') (JStr ''Blocks'')) linked,
                Call (PostIssue (JStr ''B'')
                  ''Build B\<newline>\<newline>Category: Backend\<newline>Component: core\<newline>Parent Requirement: CPG-0'')
                  keyless]\<rparr>)"
    by (simp add: create_and_link_tasks_def get_jira_issue_link_types_def http_def log_event_def
        link_type_to_use_def preferred_link_types_def duplicate_def blocks_def
        read_link_type_def read_task_def demo_task_def create_jira_issue_def
        created_issue_key_def dict_set_def link_to_parent_def
        link_jira_issues_def sleep_def env_keyless_b_def env_demo_def state0_def created_def
        keyless_def str_of_nat_digit Let_def)
  have d: "create_and_link_tasks env_demo (JStr ''CPG-0'')
            (JArr [demo_task ''A'', JObj [(''title'', JStr ''X'')], demo_task ''C'']) state0
      = (Inl (KeyError ''summary''),
         \<lparr>active_gemini_key_index = 0,
          trace = [Call GetIssueLinkTypes (tracker_demo [] GetIssueLinkTypes),
                Call (PostIssue (JStr ''A'')
                  ''Build A\<newline>\<newline>Category: Backend\<newline>Component: core\<newline>Parent Requirement: CPG-0'')
                  (created ''CPG-1''),
                Sleep 1,
                Call (PostIssueLink (JStr ''CPG-0'') (JStr ''CPG-1'') (JStr ''Blocks'')) linked]\<rparr>)"
    by (simp add: create_and_link_tasks_def get_jira_issue_link_types_def http_def log_event_def
        link_type_to_use_def preferred_link_types_def duplicate_def blocks_def
        read_link_type_def read_task_def demo_task_def create_jira_issue_def
        created_issue_key_def dict_set_def link_to_parent_def
        link_jira_issues_def sleep_def env_demo_def state0_def created_def
        str_of_nat_digit Let_def)
  show ?thesis unfolding a b d using c by (simp add: created_def keyless_def)
qed

text \<open>
  C4, amended. A creation succeeds when the tracker answers it with status 201 and a truthy
  key. When every task definition has the four fields the loop reads, every answer to a
  creation has a key that can be read and stored, and the answer about the link types can
  be read, \<^verbatim>\<open>create_and_link_tasks\<close> returns normally. Whenever it returns normally, it
  has sent every task to the tracker, whatever the answers to the earlier ones; the keys it
  returns are the keys of the successful creations in order; the dictionary has exactly
  these keys, each once, the task stored last under a key being the one kept; when the keys
  are pairwise different the dictionary lists the successes, each key with its task, so it
  has one entry per success; and a link from the parent is requested for each of these keys,
  in order, when the link type chosen is truthy, and for nothing else.
\<close>

theorem create_and_link_tasks_bookkeeping:
  "let res = create_and_link_tasks env parent (JArr tasks) s;
       evs = drop (length (trace s)) (trace (snd res));
       answers = issue_responses evs;
       pairs = created_pairs tasks answers
   in (list_all task_ok tasks
         \<and> (\<forall>h title d. usable_answer (tracker env h (PostIssue title d)))
         \<and> (\<exists>available. fst (get_jira_issue_link_types env s) = Inr available)
       \<longrightarrow> (\<exists>keys m. fst res = Inr (keys, m)))
      \<and> (\<forall>keys m. fst res = Inr (keys, m) \<longrightarrow>
            trace (snd res) = trace s @ evs
            \<and> length answers = length tasks
            \<and> keys = map fst pairs
            \<and> m = store_all [] pairs
            \<and> keys = map answer_key (filter creation_ok answers)
            \<and> fst ` set m = dict_key ` set keys
            \<and> distinct (map fst m)
            \<and> (distinct (map dict_key keys) \<longrightarrow>
                  m = map (\<lambda>(k, task). (dict_key k, task)) pairs
                  \<and> length m = length (filter creation_ok answers))
            \<and> (\<exists>available link_type.
                  fst (get_jira_issue_link_types env s) = Inr available
                  \<and> link_type_to_use available = Inr link_type
                  \<and> link_requests evs =
                      (if truthy link_type then map (\<lambda>k. (parent, k, link_type)) keys
                       else [])))
      \<and> (\<forall>r. creation_ok r \<longleftrightarrow> status_code r = 201 \<and> truthy (answer_key r))"
proof -
  let ?res = "create_and_link_tasks env parent (JArr tasks) s"
  let ?g = "Call GetIssueLinkTypes (tracker env (trace s) GetIssueLinkTypes)"
  obtain got s1 where g: "get_jira_issue_link_types env s = (got, s1)"
    by (cases "get_jira_issue_link_types env s")
  have t1: "trace s1 = trace s @ [?g]"
    using get_jira_issue_link_types_trace[of env s] g by simp
  have A: "list_all task_ok tasks
         \<and> (\<forall>h title d. usable_answer (tracker env h (PostIssue title d)))
         \<and> (\<exists>available. fst (get_jira_issue_link_types env s) = Inr available)
       \<longrightarrow> (\<exists>keys m. fst ?res = Inr (keys, m))"
  proof
    assume h: "list_all task_ok tasks
         \<and> (\<forall>h title d. usable_answer (tracker env h (PostIssue title d)))
         \<and> (\<exists>available. fst (get_jira_issue_link_types env s) = Inr available)"
    then obtain available where av: "fst (get_jira_issue_link_types env s) = Inr available"
      by blast
    from get_jira_issue_link_types_readable[OF av] obtain link_types names where
      it: "py_iter available = Inr link_types" and
      n: "link_type_names link_types = Inr names" and
      t: "truthy available \<longleftrightarrow> link_types \<noteq> []" by blast
    have "\<exists>lt. link_type_to_use available = Inr lt"
    proof (cases "List.find (\<lambda>t. JStr t \<in> set names) preferred_link_types")
      case (Some a)
      then show ?thesis using it n by (simp add: link_type_to_use_def)
    next
      case None
      show ?thesis
      proof (cases link_types)
        case Nil
        then show ?thesis using it n t None by (simp add: link_type_to_use_def)
      next
        case (Cons lt rest)
        then have "py_getitem lt ''name'' = Inr (hd names)"
          using link_type_names_hd n by blast
        then show ?thesis using it n t None Cons by (simp add: link_type_to_use_def)
      qed
    qed
    then obtain lt where lt: "link_type_to_use available = Inr lt" by blast
    have r: "?res = create_and_link_loop env parent lt tasks [] [] s1"
      using g av lt by (simp add: create_and_link_tasks_def)
    show "\<exists>keys m. fst ?res = Inr (keys, m)"
      unfolding r using create_and_link_loop_returns h by blast
  qed
  have B: "\<forall>keys m. fst ?res = Inr (keys, m) \<longrightarrow>
            trace (snd ?res) = trace s @ drop (length (trace s)) (trace (snd ?res))
            \<and> length (issue_responses (drop (length (trace s)) (trace (snd ?res))))
                = length tasks
            \<and> keys = map fst (created_pairs tasks
                (issue_responses (drop (length (trace s)) (trace (snd ?res)))))
            \<and> m = store_all [] (created_pairs tasks
                (issue_responses (drop (length (trace s)) (trace (snd ?res)))))
            \<and> keys = map answer_key (filter creation_ok
                (issue_responses (drop (length (trace s)) (trace (snd ?res)))))
            \<and> fst ` set m = dict_key ` set keys
            \<and> distinct (map fst m)
            \<and> (distinct (map dict_key keys) \<longrightarrow>
                  m = map (\<lambda>(k, task). (dict_key k, task)) (created_pairs tasks
                        (issue_responses (drop (length (trace s)) (trace (snd ?res)))))
                  \<and> length m = length (filter creation_ok
                        (issue_responses (drop (length (trace s)) (trace (snd ?res))))))
            \<and> (\<exists>available link_type.
                  fst (get_jira_issue_link_types env s) = Inr available
                  \<and> link_type_to_use available = Inr link_type
                  \<and> link_requests (drop (length (trace s)) (trace (snd ?res))) =
                      (if truthy link_type then map (\<lambda>k. (parent, k, link_type)) keys
                       else []))"
  proof (intro allI impI)
    fix keys m assume km: "fst ?res = Inr (keys, m)"
    obtain available where av: "got = Inr available"
      using km g by (cases got) (auto simp: create_and_link_tasks_def)
    obtain lt where lt: "link_type_to_use available = Inr lt"
      using km g av by (cases "link_type_to_use available")
                       (auto simp: create_and_link_tasks_def)
    let ?loop = "create_and_link_loop env parent lt tasks [] [] s1"
    have r: "?res = ?loop" using g av lt by (simp add: create_and_link_tasks_def)
    have "fst ?loop = Inr (keys, m)" using km unfolding r .
    from create_and_link_loop_spec[OF this] obtain evs where
      tr: "trace (snd ?loop) = trace s1 @ evs" and
      len0: "length (issue_responses evs) = length tasks" and
      ks0: "keys = [] @ map fst (created_pairs tasks (issue_responses evs))" and
      ms0: "m = store_all [] (created_pairs tasks (issue_responses evs))" and
      ls0: "link_requests evs =
         (if truthy lt
          then map (\<lambda>k. (parent, k, lt)) (map fst (created_pairs tasks (issue_responses evs)))
          else [])"
      by blast
    let ?evs = "?g # evs"
    have tr': "trace (snd ?res) = trace s @ ?evs" unfolding r using tr t1 by simp
    have evs: "drop (length (trace s)) (trace (snd ?res)) = ?evs" using tr' by simp
    have i: "issue_responses ?evs = issue_responses evs" by simp
    have l: "link_requests ?evs = link_requests evs" by simp
    let ?answers = "issue_responses evs"
    let ?pairs = "created_pairs tasks ?answers"
    have ks: "keys = map fst ?pairs" using ks0 by simp
    have ka: "keys = map answer_key (filter creation_ok ?answers)"
      unfolding ks using created_pairs_keys[OF len0] .
    have dom: "fst ` set m = dict_key ` set keys"
      unfolding ms0 ks by (simp add: store_all_dom)
    have dist: "distinct (map fst m)"
      unfolding ms0 by (rule store_all_distinct) simp
    have one: "distinct (map dict_key keys) \<longrightarrow>
                  m = map (\<lambda>(k, task). (dict_key k, task)) ?pairs
                  \<and> length m = length (filter creation_ok ?answers)"
    proof
      assume d: "distinct (map dict_key keys)"
      have "map (\<lambda>p. dict_key (fst p)) ?pairs = map dict_key keys"
        unfolding ks by simp
      then have "distinct (map fst [] @ map (\<lambda>p. dict_key (fst p)) ?pairs)" using d by simp
      from store_all_fresh[OF this]
      have e: "m = map (\<lambda>(k, task). (dict_key k, task)) ?pairs" unfolding ms0 by simp
      have "length m = length ?pairs" using e by simp
      also have "\<dots> = length keys" unfolding ks by simp
      also have "\<dots> = length (filter creation_ok ?answers)" unfolding ka by simp
      finally show "m = map (\<lambda>(k, task). (dict_key k, task)) ?pairs
                  \<and> length m = length (filter creation_ok ?answers)"
        using e by simp
    qed
    have a: "fst (get_jira_issue_link_types env s) = Inr available" using g av by simp
    have ls: "link_requests evs =
                (if truthy lt then map (\<lambda>k. (parent, k, lt)) keys else [])"
      using ls0 unfolding ks .
    have links: "\<exists>available link_type.
                  fst (get_jira_issue_link_types env s) = Inr available
                  \<and> link_type_to_use available = Inr link_type
                  \<and> link_requests evs =
                      (if truthy link_type then map (\<lambda>k. (parent, k, link_type)) keys
                       else [])"
      by (intro exI[of _ available] exI[of _ lt] conjI) (fact a lt ls)+
    show "trace (snd ?res) = trace s @ drop (length (trace s)) (trace (snd ?res))
            \<and> length (issue_responses (drop (length (trace s)) (trace (snd ?res))))
                = length tasks
            \<and> keys = map fst (created_pairs tasks
                (issue_responses (drop (length (trace s)) (trace (snd ?res)))))
            \<and> m = store_all [] (created_pairs tasks
                (issue_responses (drop (length (trace s)) (trace (snd ?res)))))
            \<and> keys = map answer_key (filter creation_ok
                (issue_responses (drop (length (trace s)) (trace (snd ?res)))))
            \<and> fst ` set m = dict_key ` set keys
            \<and> distinct (map fst m)
            \<and> (distinct (map dict_key keys) \<longrightarrow>
                  m = map (\<lambda>(k, task). (dict_key k, task)) (created_pairs tasks
                        (issue_responses (drop (length (trace s)) (trace (snd ?res)))))
                  \<and> length m = length (filter creation_ok
                        (issue_responses (drop (length (trace s)) (trace (snd ?res))))))
            \<and> (\<exists>available link_type.
                  fst (get_jira_issue_link_types env s) = Inr available
                  \<and> link_type_to_use available = Inr link_type
                  \<and> link_requests (drop (length (trace s)) (trace (snd ?res))) =
                      (if truthy link_type then map (\<lambda>k. (parent, k, link_type)) keys
                       else []))"
      unfolding evs i l
      by (intro conjI) (fact tr' len0 ks ms0 ka dom dist one links)+
  qed
  have C: "\<forall>r. creation_ok r \<longleftrightarrow> status_code r = 201 \<and> truthy (answer_key r)"
    using creation_ok_iff by blast
  show ?thesis unfolding Let_def by (intro conjI) (fact A B C)+
qed

theorem create_and_link_tasks_bookkeeping_witness:
  "list_all task_ok [demo_task ''A'', demo_task ''B'', demo_task ''C'']
   \<and> (\<forall>h title d. usable_answer (tracker env_demo h (PostIssue title d)))
   \<and> fst (get_jira_issue_link_types env_demo state0) = Inr (JArr [duplicate, blocks])
   \<and> fst (create_and_link_tasks env_demo (JStr ''CPG-0'')
            (JArr [demo_task ''A'', demo_task ''B'', demo_task ''C'']) state0)
       = Inr ([JStr ''CPG-1'', JStr ''CPG-5''],
              [(JStr ''CPG-1'', demo_task ''A''), (JStr ''CPG-5'', demo_task ''C'')])
   \<and> map creation_ok (issue_responses (trace (snd (create_and_link_tasks env_demo
            (JStr ''CPG-0'') (JArr [demo_task ''A'', demo_task ''B'', demo_task ''C''])
            state0))))
       = [True, False, True]
   \<and> length [(JStr ''CPG-1'', demo_task ''A''), (JStr ''CPG-5'', demo_task ''C'')]
       = length (filter creation_ok (issue_responses (trace (snd (create_and_link_tasks
            env_demo (JStr ''CPG-0'')
            (JArr [demo_task ''A'', demo_task ''B'', demo_task ''C'']) state0)))))
   \<and> link_requests (trace (snd (create_and_link_tasks env_demo (JStr ''CPG-0'')
            (JArr [demo_task ''A'', demo_task ''B'', demo_task ''C'']) state0)))
       = [(JStr ''CPG-0'', JStr ''CPG-1'', JStr ''Blocks''),
          (JStr ''CPG-0'', JStr ''CPG-5'', JStr ''Blocks'')]"
proof -
  let ?tasks = "[demo_task ''A'', demo_task ''B'', demo_task ''C'']"
  let ?res = "create_and_link_tasks env_demo (JStr ''CPG-0'') (JArr ?tasks) state0"
  let ?m = "[(JStr ''CPG-1'', demo_task ''A''), (JStr ''CPG-5'', demo_task ''C'')]"
  have h1: "list_all task_ok ?tasks"
    by (simp add: demo_task_def)
  have h2: "\<forall>h title d. usable_answer (tracker env_demo h (PostIssue title d))"
    by (simp add: usable_answer_def created_issue_key_def env_demo_def created_def
          no_response_def)
  have h3: "fst (get_jira_issue_link_types env_demo state0) = Inr (JArr [duplicate, blocks])"
    by (simp add: get_jira_issue_link_types_def http_def env_demo_def state0_def Let_def
          read_link_type_def duplicate_def blocks_def)
  have h3': "\<exists>available. fst (get_jira_issue_link_types env_demo state0) = Inr available"
    using h3 by blast
  note T = create_and_link_tasks_bookkeeping[of env_demo "JStr ''CPG-0''" ?tasks state0,
             unfolded Let_def]
  from T[THEN conjunct1, THEN mp, OF conjI[OF h1 conjI[OF h2 h3']]]
  obtain keys m where km: "fst ?res = Inr (keys, m)" by blast
  note B = T[THEN conjunct2, THEN conjunct1, THEN spec, THEN spec, THEN mp, OF km]
  have r: "fst ?res = Inr ([JStr ''CPG-1'', JStr ''CPG-5''], ?m)"
    by (simp add: create_and_link_tasks_demo)
  have keys: "keys = [JStr ''CPG-1'', JStr ''CPG-5'']" and m: "m = ?m"
    using km r by simp_all
  have d: "distinct (map dict_key keys)" unfolding keys by simp
  have len: "length m = length (filter creation_ok
      (issue_responses (drop (length (trace state0)) (trace (snd ?res)))))"
    using B d by blast
  have dr: "drop (length (trace state0)) (trace (snd ?res)) = trace (snd ?res)"
    by (simp add: state0_def)
  have c: "creation_ok (created ''CPG-1'')" "\<not> creation_ok no_response"
    "creation_ok (created ''CPG-5'')"
    by (simp_all add: creation_ok_def created_issue_key_def created_def no_response_def)
  have ans: "map creation_ok (issue_responses (trace (snd ?res))) = [True, False, True]"
    using c by (simp add: create_and_link_tasks_demo)
  have len': "length ?m = length (filter creation_ok (issue_responses (trace (snd ?res))))"
    using len unfolding dr m .
  have links: "link_requests (trace (snd ?res))
       = [(JStr ''CPG-0'', JStr ''CPG-1'', JStr ''Blocks''),
          (JStr ''CPG-0'', JStr ''CPG-5'', JStr ''Blocks'')]"
    by (simp add: create_and_link_tasks_demo)
  show ?thesis by (intro conjI) (fact h1 h2 h3 r ans len' links)+
qed

section \<open>Properties of test-case creation\<close>

lemma read_test_case_missing:
  assumes "first_missing kvs = Some f"
    and "\<forall>steps. map_of kvs ''steps'' = Some steps \<longrightarrow> (\<exists>joined. py_join '', '' steps = Inr joined)"
  shows "read_test_case env (JObj kvs) = Inl (KeyError f)"
  using assms
  by (auto simp: read_test_case_def first_missing_def test_case_fields_def
           split: if_splits option.splits sum.splits)

lemma first_missing_field: "first_missing kvs = Some f \<Longrightarrow> f \<in> set test_case_fields"
  unfolding first_missing_def by (auto simp: find_Some_iff)


lemma test_cases_loop_raises:
  assumes "\<forall>tc \<in> set pre. \<exists>x. read_test_case env tc = Inr x"
    and "read_test_case env bad = Inl e"
    and "pre = [] \<or> (\<forall>h parent t d. \<exists>k. created_issue_key
                         (tracker env h (PostChildIssue parent t d)) = Inr k)"
  shows "fst (test_cases_loop env task_key (pre @ bad # post) acc s) = Inl e"
  using assms(1,3)
proof (induction pre arbitrary: acc s)
  case Nil
  then show ?case using assms(2) by simp
next
  case (Cons tc pre)
  then obtain x where x: "read_test_case env tc = Inr x" by auto
  obtain title d where xd: "x = (title, d)" by (cases x)
  have all: "\<forall>h parent t d. \<exists>k. created_issue_key
                         (tracker env h (PostChildIssue parent t d)) = Inr k"
    using Cons.prems(2) by simp
  then obtain k where k: "created_issue_key (tracker env (trace s)
                         (PostChildIssue task_key title d)) = Inr k" by blast
  have IH: "\<And>acc s. fst (test_cases_loop env task_key (pre @ bad # post) acc s) = Inl e"
    using Cons all by simp
  show ?case using x xd k IH by (simp add: create_jira_child_issue_eq)
qed

lemma test_cases_loop_raises_some:
  assumes "read_test_case env bad = Inl e"
  shows "\<exists>e'. fst (test_cases_loop env task_key (pre @ bad # post) acc s) = Inl e'"
proof (induction pre arbitrary: acc s)
  case Nil
  then show ?case using assms by simp
next
  case (Cons tc pre)
  show ?case
  proof (cases "read_test_case env tc")
    case (Inl e0)
    then show ?thesis by simp
  next
    case (Inr x)
    obtain title d where xd: "x = (title, d)" by (cases x)
    show ?thesis
    proof (cases "created_issue_key (tracker env (trace s) (PostChildIssue task_key title d))")
      case (Inl e1)
      then show ?thesis using Inr xd by (simp add: create_jira_child_issue_eq)
    next
      case (Inr k)
      then show ?thesis using \<open>read_test_case env tc = Inr x\<close> xd Cons.IH
        by (simp add: create_jira_child_issue_eq)
    qed
  qed
qed

text \<open>
  C10. \<^verbatim>\<open>process_and_create_test_cases\<close> reads the fields \<^verbatim>\<open>test_id\<close>, \<^verbatim>\<open>test_name\<close>,
  \<^verbatim>\<open>priority\<close>, \<^verbatim>\<open>description\<close>, \<^verbatim>\<open>steps\<close> and \<^verbatim>\<open>expected_result\<close> of every element
  of the parsed list without a guard. The planner hands over whatever the parser returned:
  when that is a list containing a dictionary that lacks one of the six fields (the elements
  before it being readable, and its steps, if present, joinable), the call never returns
  normally; it raises \<^verbatim>\<open>KeyError\<close> for the first field, in reading order, that the
  dictionary lacks, whenever that dictionary is the first element or the tracker's answers to
  the creation of the earlier test cases can be read.
\<close>

theorem test_case_without_field_raises_key_error:
  assumes "py_getitem task_data ''summary'' = Inr summary"
    and "fst (generate_with_gemini_resilience env (test_cases_prompt env summary task_key) s)
           = Inr raw"
    and "parse_json_from_text env raw = JArr (pre @ JObj kvs # post)"
    and "\<forall>tc \<in> set pre. \<exists>x. read_test_case env tc = Inr x"
    and "first_missing kvs = Some f"
    and "\<forall>steps. map_of kvs ''steps'' = Some steps \<longrightarrow>
           (\<exists>joined. py_join '', '' steps = Inr joined)"
  shows "fst (generate_test_cases_for_task env summary task_key s)
           = Inr (JArr (pre @ JObj kvs # post))
         \<and> f \<in> set test_case_fields
         \<and> (\<exists>e. fst (process_and_create_test_cases env task_key task_data s) = Inl e)
         \<and> (pre = [] \<or> (\<forall>h parent t d. \<exists>k. created_issue_key
                             (tracker env h (PostChildIssue parent t d)) = Inr k) \<longrightarrow>
             fst (process_and_create_test_cases env task_key task_data s) = Inl (KeyError f))"
proof -
  let ?g = "generate_test_cases_for_task env summary task_key s"
  let ?p = "process_and_create_test_cases env task_key task_data s"
  have g: "fst ?g = Inr (JArr (pre @ JObj kvs # post))"
    using assms(2,3) by (simp add: fst_generate_test_cases)
  obtain s1 where g': "?g = (Inr (JArr (pre @ JObj kvs # post)), s1)"
    using g by (cases ?g) auto
  have r: "read_test_case env (JObj kvs) = Inl (KeyError f)"
    using read_test_case_missing[OF assms(5,6)] .
  have p: "?p = test_cases_loop env task_key (pre @ JObj kvs # post) [] s1"
    using assms(1) g' by (simp add: process_and_create_test_cases_def)
  have some: "\<exists>e. fst ?p = Inl e"
    unfolding p using test_cases_loop_raises_some[OF r] .
  have key: "pre = [] \<or> (\<forall>h parent t d. \<exists>k. created_issue_key
                             (tracker env h (PostChildIssue parent t d)) = Inr k) \<longrightarrow>
             fst ?p = Inl (KeyError f)"
  proof
    assume "pre = [] \<or> (\<forall>h parent t d. \<exists>k. created_issue_key
                             (tracker env h (PostChildIssue parent t d)) = Inr k)"
    from test_cases_loop_raises[OF assms(4) r this]
    show "fst ?p = Inl (KeyError f)" unfolding p .
  qed
  show ?thesis
    by (intro conjI) (fact g first_missing_field[OF assms(5)] some key)+
qed

lemma parse_malformed_text:
  "parse_json_from_text env_malformed malformed_text
     = JArr ([good_test_case] @ JObj [(''test_id'', JStr ''TC-2'')] # [])"
proof -
  have f: "py_find CHR ''['' malformed_text = 0"
    by (simp add: malformed_text_def)
  have l: "malformed_text = butlast malformed_text @ CHR '']'' # []"
    by (simp add: malformed_text_def)
  have r: "py_rfind CHR '']'' malformed_text = int (length (butlast malformed_text))"
    using py_rfind_last[of "CHR '']''" "[]" "butlast malformed_text"] l by simp
  have n: "length (butlast malformed_text) + 1 = length malformed_text"
    by (simp add: malformed_text_def)
  have s: "py_slice malformed_text 0 (int (length (butlast malformed_text)) + 1) = malformed_text"
    using n by (simp add: py_slice_def)
  have d: "decode_or_none env_malformed malformed_text
             = JArr [good_test_case, JObj [(''test_id'', JStr ''TC-2'')]]"
    by (simp add: decode_or_none_def env_malformed_def)
  show ?thesis unfolding parse_json_from_text_def Let_def f r s using d by simp
qed

theorem test_case_without_field_raises_key_error_witness:
  "py_getitem (demo_task ''A'') ''summary'' = Inr (JStr ''Build A'')
   \<and> fst (generate_with_gemini_resilience env_malformed
            (test_cases_prompt env_malformed (JStr ''Build A'') (JStr ''CPG-1'')) state0)
       = Inr malformed_text
   \<and> parse_json_from_text env_malformed malformed_text
       = JArr ([good_test_case] @ JObj [(''test_id'', JStr ''TC-2'')] # [])
   \<and> (\<exists>x. read_test_case env_malformed good_test_case = Inr x)
   \<and> first_missing [(''test_id'', JStr ''TC-2'')] = Some ''test_name''
   \<and> (\<forall>h parent t d. \<exists>k. created_issue_key
          (tracker env_malformed h (PostChildIssue parent t d)) = Inr k)
   \<and> fst (process_and_create_test_cases env_malformed (JStr ''CPG-1'') (demo_task ''A'') state0)
       = Inl (KeyError ''test_name'')"
proof -
  have h1: "py_getitem (demo_task ''A'') ''summary'' = Inr (JStr ''Build A'')"
    by (simp add: demo_task_def)
  have h2: "fst (generate_with_gemini_resilience env_malformed
            (test_cases_prompt env_malformed (JStr ''Build A'') (JStr ''CPG-1'')) state0)
       = Inr malformed_text"
    by (simp add: generate_with_gemini_resilience_def generate_loop.simps
          initialize_gemini_model_def env_malformed_def env_demo_def state0_def)
  note h3 = parse_malformed_text
  have h4: "\<forall>tc \<in> set [good_test_case]. \<exists>x. read_test_case env_malformed tc = Inr x"
    by (simp add: read_test_case_def good_test_case_def py_join_def Let_def)
  have h4': "\<exists>x. read_test_case env_malformed good_test_case = Inr x"
    using h4 by simp
  have h5: "first_missing [(''test_id'', JStr ''TC-2'')] = Some ''test_name''"
    by (simp add: first_missing_def test_case_fields_def)
  have h6: "\<forall>steps. map_of [(''test_id'', JStr ''TC-2'')] ''steps'' = Some steps \<longrightarrow>
           (\<exists>joined. py_join '', '' steps = Inr joined)"
    by simp
  have h7: "\<forall>h parent t d. \<exists>k. created_issue_key
          (tracker env_malformed h (PostChildIssue parent t d)) = Inr k"
    by (simp add: env_malformed_def env_demo_def created_issue_key_def created_def)
  note T = test_case_without_field_raises_key_error[OF h1 h2 h3 h4 h5 h6,
             THEN conjunct2, THEN conjunct2, THEN conjunct2, THEN mp, OF disjI2, OF h7]
  show ?thesis by (intro conjI) (fact h1 h2 h3 h4' h5 h7 T)+
qed

end
